theory Spec2Isabelle
  imports Main "HOL-Library.AList" "HOL-Library.List_Lexorder" "HOL-Library.Char_ord"
begin

section \<open>Go values shared by the three source files\<close>

text \<open>
  A Go value of interface type \<^verbatim>\<open>error\<close> is modelled as an option: \<open>None\<close> is
  \<^verbatim>\<open>nil\<close>, \<open>Some e\<close> is the error value \<open>e\<close>.
\<close>

type_synonym 'e go_error = "'e option"

section \<open>The memberlist key-value store behind the lifecycle wrapper\<close>

text \<open>
  Modelled from the spec: the lifecycle states of a service of the \<^verbatim>\<open>services\<close> package,
  whose source is missing. \<open>Terminated\<close> (the spec's Stopped) and \<open>Failed\<close> are the terminal
  ones.
\<close>

datatype service_state = New | Starting | Running | Stopping | Terminated | Failed

definition terminal :: "service_state \<Rightarrow> bool" where
  "terminal st = (st = Terminated \<or> st = Failed)"

text \<open>
  Modelled from the spec: the types \<^verbatim>\<open>message\<close>, \<^verbatim>\<open>KeyValuePair\<close> and \<^verbatim>\<open>valueDesc\<close>, the codec
  interface and the member type, whose declarations are missing from the sources. They
  follow the spec's data model and have the fields the handlers read. A codec identifier
  is of any type \<open>'c\<close>; the value of a \<^verbatim>\<open>valueDesc\<close> is of an interface type, so it may be
  \<^verbatim>\<open>nil\<close> (\<open>None\<close>); the field \<^verbatim>\<open>value\<close> is written \<open>value'\<close> and \<^verbatim>\<open>Pair\<close> is written \<open>PairKV\<close>.
\<close>

record 'c KeyValuePair =
  Key :: string
  Value :: string
  Codec :: 'c

record 'c message =
  ID :: int
  Time :: nat
  PairKV :: "'c KeyValuePair"

record ('v, 'c) valueDesc =
  value' :: "'v option"
  version :: nat
  codecID :: 'c

text \<open>
  A codec as the handlers use it: \<open>Decode\<close> and \<open>Encode\<close> return either the text of the
  error (\<open>Inl\<close>) or the result. A decoded value is a Go \<^verbatim>\<open>interface{}\<close>, so it may be \<^verbatim>\<open>nil\<close>.
\<close>

record 'v Codec =
  Decode :: "string \<Rightarrow> string + 'v option"
  Encode :: "'v option \<Rightarrow> string + string"

record Node =
  Name :: string
  Addr :: string

text \<open>
  Modelled from the spec: the store type \<^verbatim>\<open>KV\<close>, whose declaration is missing from the
  sources. It holds the Value Store (a mapping from key to a versioned, codec-tagged value), the
  Message Log (messages sent and received), the Codec Registry, the member snapshot of the
  transport, and the lifecycle state of the store as a supervised service with the cause of
  its failure, if any.
\<close>

record ('v, 'c, 'e) KV =
  store :: "string \<rightharpoonup> ('v, 'c) valueDesc"
  sentMessages :: "'c message list"
  receivedMessages :: "'c message list"
  codecs :: "'c \<rightharpoonup> 'v Codec"
  members :: "Node list"
  state :: service_state
  failureCase :: "'e go_error"

text \<open>
  Stores live on a heap: a pointer \<^verbatim>\<open>*KV\<close> is an index into the list of all stores ever
  constructed. \<open>started\<close> logs, in order, the pointers \<^verbatim>\<open>StartAsync\<close> was called on, and
  \<open>stopRequests\<close> the pointers of the stores that were asked to stop.
\<close>

record ('v, 'c, 'e) world =
  heap :: "('v, 'c, 'e) KV list"
  started :: "nat list"
  stopRequests :: "nat list"

definition deref :: "('v, 'c, 'e) world \<Rightarrow> nat \<Rightarrow> ('v, 'c, 'e) KV option" where
  "deref w p = (if p < length (heap w) then Some (heap w ! p) else None)"

definition alloc :: "('v, 'c, 'e) KV \<Rightarrow> ('v, 'c, 'e) world \<Rightarrow> nat \<times> ('v, 'c, 'e) world" where
  "alloc obj w = (length (heap w), w\<lparr>heap := heap w @ [obj]\<rparr>)"

text \<open>
  The constructor \<^verbatim>\<open>NewKV\<close> and the method \<^verbatim>\<open>StartAsync\<close> of the store are missing from
  the sources and taken as parameters: the wrapper is verified for every choice of them.
  \<open>NewKV env c\<close> is the store built from the wrapper's configuration, logger, DNS provider
  and registerer (together \<open>c\<close>); \<open>StartAsync env obj\<close> is the error returned and the store
  after the call.
\<close>

record ('cfg, 'v, 'c, 'e) kv_env =
  NewKV :: "'cfg \<Rightarrow> ('v, 'c, 'e) KV"
  StartAsync :: "('v, 'c, 'e) KV \<Rightarrow> 'e go_error \<times> ('v, 'c, 'e) KV"

section \<open>KVInitService\<close>

text \<open>
  The fields of \<^verbatim>\<open>KVInitService\<close>. \<open>cfg\<close> stands for the four construction inputs
  (\<^verbatim>\<open>cfg\<close>, \<^verbatim>\<open>logger\<close>, \<^verbatim>\<open>dnsProvider\<close>, \<^verbatim>\<open>registerer\<close>); \<open>init\<close> is the \<^verbatim>\<open>sync.Once\<close>
  (true once \<^verbatim>\<open>Do\<close> has run its function); \<open>kv\<close> is the \<^verbatim>\<open>atomic.Value\<close> (\<open>None\<close> while
  nothing is stored); \<open>watcher\<close> lists the services the failure watcher watches.
\<close>

record ('cfg, 'e) KVInitService =
  cfg :: 'cfg
  init :: bool
  kv :: "nat option"
  err :: "'e go_error"
  watcher :: "nat list"

definition NewKVInitService :: "'cfg \<Rightarrow> ('cfg, 'e) KVInitService" where
  "NewKVInitService c = \<lparr>cfg = c, init = False, kv = None, err = None, watcher = []\<rparr>"

text \<open>\<^verbatim>\<open>getKV\<close>: the stored pointer, or \<^verbatim>\<open>nil\<close> when nothing was stored.\<close>

definition getKV :: "('cfg, 'e) KVInitService \<Rightarrow> nat option" where
  "getKV kvs = (case kv kvs of None \<Rightarrow> None | Some p \<Rightarrow> Some p)"

text \<open>
  The function literal handed to \<^verbatim>\<open>kvs.init.Do\<close>: construct the store, register it with the
  failure watcher, start it and keep the error, publish the pointer.
\<close>

definition initKV ::
  "('cfg, 'v, 'c, 'e) kv_env \<Rightarrow> ('cfg, 'e) KVInitService \<Rightarrow> ('v, 'c, 'e) world
    \<Rightarrow> ('cfg, 'e) KVInitService \<times> ('v, 'c, 'e) world" where
  "initKV env kvs w =
     (let (p, w1) = alloc (NewKV env (cfg kvs)) w;
          kvs1 = kvs\<lparr>watcher := watcher kvs @ [p]\<rparr>;
          (e, obj) = StartAsync env (heap w1 ! p);
          w2 = w1\<lparr>heap := (heap w1)[p := obj], started := started w1 @ [p]\<rparr>;
          kvs2 = kvs1\<lparr>err := e\<rparr>;
          kvs3 = kvs2\<lparr>kv := Some p\<rparr>
      in (kvs3, w2))"

text \<open>
  \<^verbatim>\<open>GetMemberlistKV\<close>, called by one goroutine at a time: \<^verbatim>\<open>Once.Do\<close> runs the function
  only if it has not run before and then marks the \<^verbatim>\<open>Once\<close> as done.
\<close>

definition GetMemberlistKV ::
  "('cfg, 'v, 'c, 'e) kv_env \<Rightarrow> ('cfg, 'e) KVInitService \<Rightarrow> ('v, 'c, 'e) world
    \<Rightarrow> (nat option \<times> 'e go_error) \<times> ('cfg, 'e) KVInitService \<times> ('v, 'c, 'e) world" where
  "GetMemberlistKV env kvs w =
     (let (kvs', w') =
            (if init kvs then (kvs, w)
             else (let (kvs1, w1) = initKV env kvs w in (kvs1\<lparr>init := True\<rparr>, w1)))
      in ((getKV kvs', err kvs'), kvs', w'))"

text \<open>A sequence of \<open>n\<close> calls, one after the other, with the result of each.\<close>

fun calls ::
  "('cfg, 'v, 'c, 'e) kv_env \<Rightarrow> nat \<Rightarrow> ('cfg, 'e) KVInitService \<Rightarrow> ('v, 'c, 'e) world
    \<Rightarrow> (nat option \<times> 'e go_error) list \<times> ('cfg, 'e) KVInitService \<times> ('v, 'c, 'e) world" where
  "calls env 0 kvs w = ([], kvs, w)"
| "calls env (Suc n) kvs w =
     (let (r, kvs1, w1) = GetMemberlistKV env kvs w;
          (rs, kvs2, w2) = calls env n kvs1 w1
      in (r # rs, kvs2, w2))"

subsection \<open>running\<close>

text \<open>
  What the goroutine inside \<^verbatim>\<open>running\<close> can observe at one moment: whether \<^verbatim>\<open>ctx.Done()\<close> is
  closed, and the error the failure watcher's channel has ready to be received, if any.
\<close>

record 'e chans =
  ctx_Done :: bool
  watcher_Chan :: "'e go_error option"

text \<open>
  \<^verbatim>\<open>running\<close> is one \<^verbatim>\<open>select\<close> over the two channels. The argument lists the observations at
  the successive moments the goroutine is scheduled: \<^verbatim>\<open>select\<close> blocks while no case is
  ready, and takes any one of the ready cases (Go chooses among several at random).
  \<open>running tr r\<close> holds when \<^verbatim>\<open>running\<close> can return \<open>r\<close> on the observations \<open>tr\<close>; it holds for
  no \<open>r\<close> while the goroutine is still blocked at the end of \<open>tr\<close>.
\<close>

inductive running :: "'e chans list \<Rightarrow> 'e go_error \<Rightarrow> bool" where
  ctx_done: "ctx_Done c \<Longrightarrow> running (c # cs) None"
| watcher_failed: "watcher_Chan c = Some e \<Longrightarrow> running (c # cs) e"
| blocked: "\<not> ctx_Done c \<Longrightarrow> watcher_Chan c = None \<Longrightarrow> running cs r \<Longrightarrow> running (c # cs) r"

code_pred running .

definition ready :: "'e chans \<Rightarrow> bool" where
  "ready c = (ctx_Done c \<or> watcher_Chan c \<noteq> None)"

subsection \<open>stopping\<close>

text \<open>
  Modelled from the spec: \<^verbatim>\<open>services.StopAndAwaitTerminated\<close>, whose source is missing.
  By the spec it requests the store to stop and waits for it to reach a terminal
  state before returning. \<open>fut\<close> lists the lifecycle state and failure cause of the store at
  the successive moments after the request; the call waits for the first terminal one, and
  is still waiting (\<open>None\<close>) when \<open>fut\<close> holds none. It returns the failure cause of a
  failed store and \<^verbatim>\<open>nil\<close> for a terminated one.
\<close>

definition StopAndAwaitTerminated ::
  "(service_state \<times> 'e go_error) list \<Rightarrow> nat \<Rightarrow> ('v, 'c, 'e) world
    \<Rightarrow> ('e go_error \<times> ('v, 'c, 'e) world) option" where
  "StopAndAwaitTerminated fut p w =
     (case deref w p of
        None \<Rightarrow> None
      | Some obj \<Rightarrow>
          (case List.find (\<lambda>s. terminal (fst s)) ((state obj, failureCase obj) # fut) of
             None \<Rightarrow> None
           | Some (st, f) \<Rightarrow>
               Some (if st = Failed then f else None,
                     w\<lparr>heap := (heap w)[p := obj\<lparr>state := st, failureCase := f\<rparr>],
                       stopRequests := stopRequests w @ [p]\<rparr>)))"

text \<open>
  \<^verbatim>\<open>stopping\<close>: the argument error is ignored. \<open>None\<close> means the call has not returned on the
  observations \<open>fut\<close>.
\<close>

definition stopping ::
  "(service_state \<times> 'e go_error) list \<Rightarrow> 'e go_error \<Rightarrow> ('cfg, 'e) KVInitService
    \<Rightarrow> ('v, 'c, 'e) world \<Rightarrow> ('e go_error \<times> ('cfg, 'e) KVInitService \<times> ('v, 'c, 'e) world) option" where
  "stopping fut e kvs w =
     (case getKV kvs of
        None \<Rightarrow> Some (None, kvs, w)
      | Some p \<Rightarrow>
          (case StopAndAwaitTerminated fut p w of
             None \<Rightarrow> None
           | Some (r, w') \<Rightarrow> Some (r, kvs, w')))"

subsection \<open>GetMemberlistKV called by several goroutines\<close>

text \<open>
  Where a goroutine stands inside \<^verbatim>\<open>GetMemberlistKV\<close>, one constructor for each shared-memory
  action still to be done, with the values it holds in local variables.
  \<^verbatim>\<open>sync.Once.Do\<close> loads the done flag and returns if it is set; otherwise it locks the mutex
  of the \<^verbatim>\<open>Once\<close>, tests the flag again, runs the function if the flag is still clear, sets
  the flag when the function has returned, and unlocks the mutex. The actions of the
  goroutines are interleaved in one order that all of them see: the flag is read and
  written atomically, and every other access to the wrapper is made inside the mutex or
  after the flag was seen set.
\<close>

datatype 'e pc =
  At_Do
  | At_Lock
  | At_check
  | At_NewKV
  | At_WatchService nat
  | At_StartAsync nat
  | At_set_err nat "'e go_error"
  | At_Store nat
  | At_done
  | At_Unlock
  | At_getKV
  | At_err "nat option"
  | Finished "nat option" "'e go_error"

text \<open>
  The wrapper and the heap, shared by all goroutines; the goroutine that holds the mutex
  of the \<^verbatim>\<open>Once\<close>, if any; and where each goroutine stands.
\<close>

record ('cfg, 'v, 'c, 'e) config =
  c_kvs :: "('cfg, 'e) KVInitService"
  c_mutex :: "nat option"
  c_world :: "('v, 'c, 'e) world"
  c_threads :: "'e pc list"

definition goto :: "('cfg, 'v, 'c, 'e) config \<Rightarrow> nat \<Rightarrow> 'e pc \<Rightarrow> ('cfg, 'v, 'c, 'e) config" where
  "goto c t l = c\<lparr>c_threads := (c_threads c)[t := l]\<rparr>"

text \<open>
  Goroutine \<open>t\<close> does its next action. A goroutine that waits for the mutex while another
  holds it, and one that has returned, change nothing.
\<close>

definition step ::
  "('cfg, 'v, 'c, 'e) kv_env \<Rightarrow> nat \<Rightarrow> ('cfg, 'v, 'c, 'e) config \<Rightarrow> ('cfg, 'v, 'c, 'e) config" where
  "step env t c =
     (if t < length (c_threads c) then
        (case c_threads c ! t of
           At_Do \<Rightarrow> goto c t (if init (c_kvs c) then At_getKV else At_Lock)
         | At_Lock \<Rightarrow>
             (case c_mutex c of
                None \<Rightarrow> goto (c\<lparr>c_mutex := Some t\<rparr>) t At_check
              | Some _ \<Rightarrow> c)
         | At_check \<Rightarrow> goto c t (if init (c_kvs c) then At_Unlock else At_NewKV)
         | At_NewKV \<Rightarrow>
             (let (p, w1) = alloc (NewKV env (cfg (c_kvs c))) (c_world c)
              in goto (c\<lparr>c_world := w1\<rparr>) t (At_WatchService p))
         | At_WatchService p \<Rightarrow>
             goto (c\<lparr>c_kvs := (c_kvs c)\<lparr>watcher := watcher (c_kvs c) @ [p]\<rparr>\<rparr>) t (At_StartAsync p)
         | At_StartAsync p \<Rightarrow>
             (case deref (c_world c) p of
                None \<Rightarrow> c
              | Some obj \<Rightarrow>
                  (let (e, obj') = StartAsync env obj
                   in goto (c\<lparr>c_world := (c_world c)\<lparr>heap := (heap (c_world c))[p := obj'],
                                                    started := started (c_world c) @ [p]\<rparr>\<rparr>)
                        t (At_set_err p e)))
         | At_set_err p e \<Rightarrow> goto (c\<lparr>c_kvs := (c_kvs c)\<lparr>err := e\<rparr>\<rparr>) t (At_Store p)
         | At_Store p \<Rightarrow> goto (c\<lparr>c_kvs := (c_kvs c)\<lparr>kv := Some p\<rparr>\<rparr>) t At_done
         | At_done \<Rightarrow> goto (c\<lparr>c_kvs := (c_kvs c)\<lparr>init := True\<rparr>\<rparr>) t At_Unlock
         | At_Unlock \<Rightarrow> goto (c\<lparr>c_mutex := None\<rparr>) t At_getKV
         | At_getKV \<Rightarrow> goto c t (At_err (getKV (c_kvs c)))
         | At_err r \<Rightarrow> goto c t (Finished r (err (c_kvs c)))
         | Finished r e \<Rightarrow> c)
      else c)"

text \<open>
  An interleaving is the list of the goroutines in the order they are scheduled; every
  list is one, so a statement about all lists is about all interleavings.
\<close>

definition run ::
  "('cfg, 'v, 'c, 'e) kv_env \<Rightarrow> nat list \<Rightarrow> ('cfg, 'v, 'c, 'e) config \<Rightarrow> ('cfg, 'v, 'c, 'e) config" where
  "run env sched c = fold (step env) sched c"

text \<open>\<open>n\<close> goroutines about to call \<^verbatim>\<open>GetMemberlistKV\<close> on a new wrapper.\<close>

definition concurrent_calls :: "'cfg \<Rightarrow> ('v, 'c, 'e) world \<Rightarrow> nat \<Rightarrow> ('cfg, 'v, 'c, 'e) config" where
  "concurrent_calls c0 w0 n =
     \<lparr>c_kvs = NewKVInitService c0, c_mutex = None, c_world = w0, c_threads = replicate n At_Do\<rparr>"

text \<open>
  The seven states the wrapper and the heap pass through, numbered 0 to 6: new; store
  constructed; store watched; store started; error kept; pointer published; done.
\<close>

definition stage ::
  "('cfg, 'v, 'c, 'e) kv_env \<Rightarrow> 'cfg \<Rightarrow> ('v, 'c, 'e) world \<Rightarrow> nat
    \<Rightarrow> ('cfg, 'e) KVInitService \<times> ('v, 'c, 'e) world" where
  "stage env c0 w0 i =
     (let h0 = length (heap w0);
          obj = NewKV env c0;
          w1 = w0\<lparr>heap := heap w0 @ [obj]\<rparr>;
          w2 = w0\<lparr>heap := heap w0 @ [snd (StartAsync env obj)], started := started w0 @ [h0]\<rparr>;
          k0 = NewKVInitService c0;
          k1 = k0\<lparr>watcher := [h0]\<rparr>;
          k2 = k1\<lparr>err := fst (StartAsync env obj)\<rparr>;
          k3 = k2\<lparr>kv := Some h0\<rparr>
      in if i = 0 then (k0, w0)
         else if i = 1 then (k0, w1)
         else if i = 2 then (k1, w1)
         else if i = 3 then (k1, w2)
         else if i = 4 then (k2, w2)
         else if i = 5 then (k3, w2)
         else (k3\<lparr>init := True\<rparr>, w2))"

text \<open>
  Where a goroutine may stand at each stage: only the holder of the mutex is between
  locking and unlocking, and a goroutine past \<^verbatim>\<open>Do\<close> implies stage 6.
\<close>

definition thread_ok :: "nat \<Rightarrow> 'e go_error \<Rightarrow> nat \<Rightarrow> nat option \<Rightarrow> nat \<Rightarrow> 'e pc \<Rightarrow> bool" where
  "thread_ok h0 e0 i m t l =
     (case l of
        At_Do \<Rightarrow> m \<noteq> Some t
      | At_Lock \<Rightarrow> m \<noteq> Some t
      | At_check \<Rightarrow> m = Some t \<and> (i = 0 \<or> i = 6)
      | At_NewKV \<Rightarrow> m = Some t \<and> i = 0
      | At_WatchService p \<Rightarrow> m = Some t \<and> i = 1 \<and> p = h0
      | At_StartAsync p \<Rightarrow> m = Some t \<and> i = 2 \<and> p = h0
      | At_set_err p e \<Rightarrow> m = Some t \<and> i = 3 \<and> p = h0 \<and> e = e0
      | At_Store p \<Rightarrow> m = Some t \<and> i = 4 \<and> p = h0
      | At_done \<Rightarrow> m = Some t \<and> i = 5
      | At_Unlock \<Rightarrow> m = Some t \<and> i = 6
      | At_getKV \<Rightarrow> m \<noteq> Some t \<and> i = 6
      | At_err r \<Rightarrow> m \<noteq> Some t \<and> i = 6 \<and> r = Some h0
      | Finished r e \<Rightarrow> m \<noteq> Some t \<and> i = 6 \<and> r = Some h0 \<and> e = e0)"

definition at_stage ::
  "('cfg, 'v, 'c, 'e) kv_env \<Rightarrow> 'cfg \<Rightarrow> ('v, 'c, 'e) world \<Rightarrow> nat \<Rightarrow> nat
    \<Rightarrow> ('cfg, 'v, 'c, 'e) config \<Rightarrow> bool" where
  "at_stage env c0 w0 n i c =
     (i \<le> 6 \<and> (c_kvs c, c_world c) = stage env c0 w0 i \<and> length (c_threads c) = n
      \<and> (c_mutex c = None \<longrightarrow> i = 0 \<or> i = 6)
      \<and> (\<forall>t. c_mutex c = Some t \<longrightarrow> t < n)
      \<and> (\<forall>t<n. thread_ok (length (heap w0)) (fst (StartAsync env (NewKV env c0))) i (c_mutex c) t
                  (c_threads c ! t)))"

text \<open>
  The number of actions a goroutine that is never made to wait has left at most, and a
  schedule that completes all calls from a configuration in which the goroutine \<open>m\<close>, if
  any, holds the mutex: the holder runs until it has returned, then each goroutine in turn.
\<close>

definition remaining :: "'e pc \<Rightarrow> nat" where
  "remaining l =
     (case l of
        At_Do \<Rightarrow> 12 | At_Lock \<Rightarrow> 11 | At_check \<Rightarrow> 10 | At_NewKV \<Rightarrow> 9
      | At_WatchService p \<Rightarrow> 8 | At_StartAsync p \<Rightarrow> 7 | At_set_err p e \<Rightarrow> 6
      | At_Store p \<Rightarrow> 5 | At_done \<Rightarrow> 4 | At_Unlock \<Rightarrow> 3 | At_getKV \<Rightarrow> 2
      | At_err r \<Rightarrow> 1 | Finished r e \<Rightarrow> 0)"

definition completion :: "nat \<Rightarrow> nat option \<Rightarrow> nat list" where
  "completion n m =
     (case m of None \<Rightarrow> [] | Some t \<Rightarrow> replicate 12 t) @ concat (map (replicate 12) [0..<n])"

section \<open>The debug page\<close>

subsection \<open>Responses and requests\<close>

text \<open>
  An \<^verbatim>\<open>http.ResponseWriter\<close> as a recorder: \<open>Header\<close> is the header map, \<open>Code\<close> the status
  written (\<open>None\<close> until the first \<^verbatim>\<open>WriteHeader\<close>), \<open>sentHeader\<close> the headers as they stood
  when the status was written (later changes to the map are not sent), \<open>Body\<close> the bytes
  written. Header names are written in their canonical form, which \<^verbatim>\<open>Set\<close> and \<^verbatim>\<open>Add\<close>
  give them.
\<close>

record ResponseWriter =
  Header :: "(string \<times> string list) list"
  Code :: "int option"
  sentHeader :: "(string \<times> string list) list"
  Body :: string

definition Header_Set :: "ResponseWriter \<Rightarrow> string \<Rightarrow> string \<Rightarrow> ResponseWriter" where
  "Header_Set w k v = w\<lparr>Header := AList.update k [v] (Header w)\<rparr>"

definition Header_Add :: "ResponseWriter \<Rightarrow> string \<Rightarrow> string \<Rightarrow> ResponseWriter" where
  "Header_Add w k v =
     w\<lparr>Header := AList.update k ((case map_of (Header w) k of None \<Rightarrow> [] | Some vs \<Rightarrow> vs) @ [v])
                    (Header w)\<rparr>"

text \<open>Only the first \<^verbatim>\<open>WriteHeader\<close> counts; a later one is ignored.\<close>

definition WriteHeader :: "ResponseWriter \<Rightarrow> int \<Rightarrow> ResponseWriter" where
  "WriteHeader w c =
     (case Code w of None \<Rightarrow> w\<lparr>Code := Some c, sentHeader := Header w\<rparr> | Some _ \<Rightarrow> w)"

text \<open>\<^verbatim>\<open>Write\<close> writes status 200 first when no status was written yet.\<close>

definition Write :: "ResponseWriter \<Rightarrow> string \<Rightarrow> ResponseWriter" where
  "Write w b = (let w' = WriteHeader w 200 in w'\<lparr>Body := Body w' @ b\<rparr>)"

text \<open>
  \<^verbatim>\<open>http.Error\<close>: two headers, the status, and the message followed by a newline.
\<close>

definition http_Error :: "ResponseWriter \<Rightarrow> string \<Rightarrow> int \<Rightarrow> ResponseWriter" where
  "http_Error w msg c =
     Write (WriteHeader
              (Header_Set (Header_Set w ''Content-Type'' ''text/plain; charset=utf-8'')
                 ''X-Content-Type-Options'' ''nosniff'') c)
       (msg @ [CHR 0x0A])"

text \<open>
  A request as the handler reads it: the error \<^verbatim>\<open>req.ParseForm()\<close> returns, the map
  \<^verbatim>\<open>req.Form\<close> after that call (a key that is absent reads as the \<^verbatim>\<open>nil\<close> slice, \<open>None\<close>), and
  the \<^verbatim>\<open>Accept\<close> header.
\<close>

record Request =
  ParseForm_err :: "string go_error"
  Form :: "string \<rightharpoonup> string list"
  Accept :: string

text \<open>A handler returns, or panics (an index out of range, an invalid pointer).\<close>

datatype outcome = Returned | Panicked

subsection \<open>The accessors of the store\<close>

text \<open>
  Modelled from the spec: \<^verbatim>\<open>storeCopy\<close>, the spec's \<^verbatim>\<open>snapshot()\<close>, is missing from the
  sources. It returns an independent copy of the mapping and changes nothing.
\<close>

definition storeCopy :: "('v, 'c, 'e) KV \<Rightarrow> (string \<rightharpoonup> ('v, 'c) valueDesc)" where
  "storeCopy obj = store obj"

text \<open>
  Modelled from the spec: \<^verbatim>\<open>getSentAndReceivedMessages\<close>, the spec's \<^verbatim>\<open>listMessages()\<close>, is
  missing from the sources. It returns the sent and the received messages and
  changes nothing.
\<close>

definition getSentAndReceivedMessages ::
  "('v, 'c, 'e) KV \<Rightarrow> 'c message list \<times> 'c message list" where
  "getSentAndReceivedMessages obj = (sentMessages obj, receivedMessages obj)"

text \<open>
  Modelled from the spec: \<^verbatim>\<open>deleteSentReceivedMessages\<close>, the spec's \<^verbatim>\<open>clearMessages()\<close>, is
  missing from the sources. It clears the message log entirely, and is the one
  accessor with a side effect.
\<close>

definition deleteSentReceivedMessages :: "('v, 'c, 'e) KV \<Rightarrow> ('v, 'c, 'e) KV" where
  "deleteSentReceivedMessages obj = obj\<lparr>sentMessages := [], receivedMessages := []\<rparr>"

text \<open>
  Modelled from the spec: \<^verbatim>\<open>GetCodec\<close>, the spec's \<^verbatim>\<open>lookup(codecID)\<close>, is missing from the
  sources. It returns the codec registered under the identifier, or absent (\<^verbatim>\<open>nil\<close>).
\<close>

definition GetCodec :: "('v, 'c, 'e) KV \<Rightarrow> 'c \<Rightarrow> 'v Codec option" where
  "GetCodec obj c = codecs obj c"

text \<open>
  Modelled from the spec: \<^verbatim>\<open>kv.memberlist.Members()\<close>, the spec's \<^verbatim>\<open>membersSnapshot()\<close>, belongs
  to the transport. It returns a fresh list of the members.
\<close>

definition Members :: "('v, 'c, 'e) KV \<Rightarrow> Node list" where
  "Members obj = members obj"

subsection \<open>Rendering\<close>

record ('v, 'c) pageData =
  Now :: nat
  Memberlist :: "Node list"
  SortedMembers :: "Node list"
  Store :: "string \<rightharpoonup> ('v, 'c) valueDesc"
  SentMessages :: "'c message list"
  ReceivedMessages :: "'c message list"

text \<open>
  The library functions the handlers call, as parameters: \<^verbatim>\<open>strconv.Atoi\<close> (the text of the
  error or the number), the JSON encoder on a value (with or without indentation) and on
  the page data (the text of the error, or the encoding, which is written only when there
  is no error), \<^verbatim>\<open>fmt.Fprintf\<close> with \<^verbatim>\<open>%#v\<close>, the execution of the page template (the output
  written and the error, if any), and the clock.
\<close>

record ('v, 'c) http_env =
  Atoi :: "string \<Rightarrow> string + int"
  json_Encode :: "bool \<Rightarrow> 'v option \<Rightarrow> string + string"
  Sprintf_v :: "'v option \<Rightarrow> string"
  json_Encode_page :: "('v, 'c) pageData \<Rightarrow> string + string"
  template_Execute :: "('v, 'c) pageData \<Rightarrow> string \<times> string go_error"
  time_Now :: nat

text \<open>Decimal digits of a natural number (\<^verbatim>\<open>strconv.Itoa\<close> on a length, \<^verbatim>\<open>%d\<close> on a \<^verbatim>\<open>uint\<close>).\<close>

fun Itoa :: "nat \<Rightarrow> string" where
  "Itoa n = (if n < 10 then [char_of (48 + n)] else Itoa (n div 10) @ [char_of (48 + n mod 10)])"

declare Itoa.simps [simp del]

text \<open>\<^verbatim>\<open>strings.Contains\<close>.\<close>

primrec has_prefix :: "string \<Rightarrow> string \<Rightarrow> bool" where
  "has_prefix s [] = True"
| "has_prefix s (c # cs) = (case s of [] \<Rightarrow> False | d # ds \<Rightarrow> d = c \<and> has_prefix ds cs)"

primrec strings_Contains :: "string \<Rightarrow> string \<Rightarrow> bool" where
  "strings_Contains [] sub = (sub = [])"
| "strings_Contains (c # cs) sub = (has_prefix (c # cs) sub \<or> strings_Contains cs sub)"

definition downloadKeyParam :: string where "downloadKeyParam = ''downloadKey''"
definition viewKeyParam :: string where "viewKeyParam = ''viewKey''"
definition viewMsgParam :: string where "viewMsgParam = ''viewMsg''"
definition deleteMessagesParam :: string where "deleteMessagesParam = ''deleteMessages''"

definition getFormat :: "Request \<Rightarrow> string" where
  "getFormat req = (case Form req ''format'' of Some (f # _) \<Rightarrow> f | _ \<Rightarrow> [])"

text \<open>
  \<^verbatim>\<open>formatValue\<close> writes the status before it adds the content type, so the header is not
  among those sent; an encoding error is reported after status 200 was written.
\<close>

definition formatValue ::
  "('v, 'c) http_env \<Rightarrow> ResponseWriter \<Rightarrow> 'v option \<Rightarrow> string \<Rightarrow> ResponseWriter" where
  "formatValue env w val format =
     (let w1 = WriteHeader w 200;
          w2 = Header_Add w1 ''Content-Type'' ''text/plain''
      in if format = ''json'' \<or> format = ''json-pretty'' then
           (case json_Encode env (format = ''json-pretty'') val of
              Inl e \<Rightarrow> http_Error w2 e 500
            | Inr out \<Rightarrow> Write w2 out)
         else Write w2 (Sprintf_v env val))"

definition viewMessage ::
  "('v, 'c) http_env \<Rightarrow> ResponseWriter \<Rightarrow> ('v, 'c, 'e) KV \<Rightarrow> 'c message \<Rightarrow> string
    \<Rightarrow> ResponseWriter" where
  "viewMessage env w obj msg format =
     (case GetCodec obj (Codec (PairKV msg)) of
        None \<Rightarrow> http_Error w ''codec not found'' 404
      | Some c \<Rightarrow>
          (case Decode c (Value (PairKV msg)) of
             Inl e \<Rightarrow> http_Error w (''failed to decode: '' @ e) 500
           | Inr val \<Rightarrow> formatValue env w val format))"

text \<open>
  Reading a key the Go map does not hold gives the zero \<^verbatim>\<open>valueDesc\<close>, whose value is \<^verbatim>\<open>nil\<close>.
\<close>

definition viewKey ::
  "('v, 'c) http_env \<Rightarrow> ResponseWriter \<Rightarrow> (string \<rightharpoonup> ('v, 'c) valueDesc) \<Rightarrow> string \<Rightarrow> string
    \<Rightarrow> ResponseWriter" where
  "viewKey env w st k format =
     (case st k of
        None \<Rightarrow> http_Error w ''value not found'' 404
      | Some d \<Rightarrow>
          (case value' d of
             None \<Rightarrow> http_Error w ''value not found'' 404
           | Some v \<Rightarrow> formatValue env w (Some v) format))"

definition downloadKey ::
  "ResponseWriter \<Rightarrow> ('v, 'c, 'e) KV \<Rightarrow> (string \<rightharpoonup> ('v, 'c) valueDesc) \<Rightarrow> string
    \<Rightarrow> ResponseWriter" where
  "downloadKey w obj st k =
     (case st k of
        None \<Rightarrow> http_Error w ''value not found'' 404
      | Some d \<Rightarrow>
          (case value' d of
             None \<Rightarrow> http_Error w ''value not found'' 404
           | Some v \<Rightarrow>
               (case GetCodec obj (codecID d) of
                  None \<Rightarrow> http_Error w ''codec not found'' 404
                | Some c \<Rightarrow>
                    (case Encode c (Some v) of
                       Inl e \<Rightarrow> http_Error w (''failed to encode: '' @ e) 500
                     | Inr encoded \<Rightarrow>
                         Write (WriteHeader
                                  (Header_Add
                                     (Header_Add
                                        (Header_Add w ''Content-Type'' ''application/octet-stream'')
                                        ''Content-Length'' (Itoa (length encoded)))
                                     ''Content-Disposition''
                                     (''attachment; filename='' @ Itoa (version d) @ ''-'' @ k))
                                  200)
                           encoded))))"

text \<open>
  The rest of \<^verbatim>\<open>ServeHTTP\<close>, reached when no form parameter was served: the page with the
  members sorted by name (the model keeps the order of members of the same name), as JSON
  when the \<^verbatim>\<open>Accept\<close> header asks for it and as HTML otherwise.
\<close>

definition servePage ::
  "('v, 'c) http_env \<Rightarrow> ('v, 'c, 'e) KV \<Rightarrow> Request \<Rightarrow> ResponseWriter \<Rightarrow> ResponseWriter" where
  "servePage env obj req w =
     (let ms = sort_key Name (Members obj);
          (sent, received) = getSentAndReceivedMessages obj;
          v = \<lparr>Now = time_Now env, Memberlist = Members obj, SortedMembers = ms,
               Store = storeCopy obj, SentMessages = sent, ReceivedMessages = received\<rparr>
      in if strings_Contains (Accept req) ''application/json'' then
           (let w1 = Header_Set w ''Content-Type'' ''application/json''
            in case json_Encode_page env v of
                 Inl e \<Rightarrow> http_Error w1 e 500
               | Inr out \<Rightarrow> Write w1 out)
         else
           (let w1 = Header_Set w ''Content-Type'' ''text/html'';
                (out, e) = template_Execute env v;
                w2 = (if out = [] then w1 else Write w1 out)
            in case e of None \<Rightarrow> w2 | Some msg \<Rightarrow> http_Error w2 msg 500))"

text \<open>
  \<^verbatim>\<open>ServeHTTP\<close>. The wrapper and the heap are returned with the response, so that what the
  handler changes can be stated. Only \<^verbatim>\<open>deleteSentReceivedMessages\<close> writes to the store.
\<close>

definition ServeHTTP ::
  "('v, 'c) http_env \<Rightarrow> ('cfg, 'e) KVInitService \<Rightarrow> ('v, 'c, 'e) world \<Rightarrow> Request
    \<Rightarrow> ResponseWriter
    \<Rightarrow> outcome \<times> ResponseWriter \<times> ('cfg, 'e) KVInitService \<times> ('v, 'c, 'e) world" where
  "ServeHTTP env kvs wld req w =
     (case getKV kvs of
        None \<Rightarrow>
          (Returned,
           Write (Header_Set w ''Content-Type'' ''text/plain'')
             ''This instance doesn't use memberlist.'',
           kvs, wld)
      | Some p \<Rightarrow>
          (case deref wld p of
             None \<Rightarrow> (Panicked, w, kvs, wld)
           | Some obj \<Rightarrow>
               (if ParseForm_err req = None then
                  (case Form req downloadKeyParam of
                     Some ks \<Rightarrow>
                       (case ks of
                          [] \<Rightarrow> (Panicked, w, kvs, wld)
                        | k # _ \<Rightarrow> (Returned, downloadKey w obj (storeCopy obj) k, kvs, wld))
                   | None \<Rightarrow>
                  (case Form req viewKeyParam of
                     Some ks \<Rightarrow>
                       (case ks of
                          [] \<Rightarrow> (Panicked, w, kvs, wld)
                        | k # _ \<Rightarrow>
                            (Returned, viewKey env w (storeCopy obj) k (getFormat req), kvs, wld))
                   | None \<Rightarrow>
                  (case Form req viewMsgParam of
                     Some ms \<Rightarrow>
                       (case ms of
                          [] \<Rightarrow> (Panicked, w, kvs, wld)
                        | m # _ \<Rightarrow>
                            (case Atoi env m of
                               Inl e \<Rightarrow> (Returned, http_Error w e 400, kvs, wld)
                             | Inr msgID \<Rightarrow>
                                 (let (sent, received) = getSentAndReceivedMessages obj
                                  in case List.find (\<lambda>x. ID x = msgID) (sent @ received) of
                                       Some msg \<Rightarrow>
                                         (Returned, viewMessage env w obj msg (getFormat req),
                                          kvs, wld)
                                     | None \<Rightarrow>
                                         (Returned, http_Error w ''message not found'' 404,
                                          kvs, wld))))
                   | None \<Rightarrow>
                  (if (case Form req deleteMessagesParam of
                         Some (v # _) \<Rightarrow> v = ''true'' | _ \<Rightarrow> False) then
                     (Returned,
                      WriteHeader
                        (Header_Set w ''Location'' (''?'' @ deleteMessagesParam @ ''=false'')) 302,
                      kvs,
                      wld\<lparr>heap := (heap wld)[p := deleteSentReceivedMessages obj]\<rparr>)
                   else (Returned, servePage env obj req w, kvs, wld)))))
                else (Returned, servePage env obj req w, kvs, wld))))"

text \<open>
  The requests that reach the call of \<^verbatim>\<open>deleteSentReceivedMessages\<close>: the form was parsed, none
  of the three parameters served before is present, and the first value of
  \<^verbatim>\<open>deleteMessages\<close> is \<^verbatim>\<open>true\<close>.
\<close>

definition clearsMessages :: "Request \<Rightarrow> bool" where
  "clearsMessages req =
     (ParseForm_err req = None \<and> Form req downloadKeyParam = None
      \<and> Form req viewKeyParam = None \<and> Form req viewMsgParam = None
      \<and> (case Form req deleteMessagesParam of Some (v # _) \<Rightarrow> v = ''true'' | _ \<Rightarrow> False))"

section \<open>WriteError\<close>

definition StatusClientClosedRequest :: int where
  "StatusClientClosedRequest = 499"

definition ErrClientCanceled :: string where
  "ErrClientCanceled = ''The request was cancelled by the client.''"

definition ErrDeadlineExceeded :: string where
  "ErrDeadlineExceeded = ''Request timed out, decrease the duration of the request or add more label matchers (prefer exact match over regex match) to reduce the amount of data processed.''"

text \<open>The error values \<^verbatim>\<open>WriteError\<close> compares against with \<^verbatim>\<open>errors.Is\<close>.\<close>

datatype sentinel =
  context_Canceled | context_DeadlineExceeded
  | logqlmodel_ErrLimit | logqlmodel_ErrParse | logqlmodel_ErrPipeline
  | user_ErrNoOrgID

text \<open>The gRPC status code \<^verbatim>\<open>codes.DeadlineExceeded\<close>.\<close>

definition codes_DeadlineExceeded :: int where
  "codes_DeadlineExceeded = 4"

text \<open>
  The library functions \<^verbatim>\<open>WriteError\<close> calls on its argument, as parameters over a type
  \<open>'err\<close> of (non-nil) error values and a type \<open>'me\<close> of \<^verbatim>\<open>util.MultiError\<close> values:
  the type assertion \<^verbatim>\<open>err.(util.MultiError)\<close>; the methods \<^verbatim>\<open>Is\<close> and \<^verbatim>\<open>IsDeadlineExceeded\<close> of
  a \<^verbatim>\<open>MultiError\<close>; \<^verbatim>\<open>status.FromError\<close> (the code of the status and whether the error is
  a gRPC status); \<^verbatim>\<open>errors.Is\<close>; \<^verbatim>\<open>errors.As\<close> into a \<^verbatim>\<open>promql.ErrStorage\<close> (the error it
  wraps, which may be \<^verbatim>\<open>nil\<close>, when one is found) and into a \<^verbatim>\<open>QueryError\<close>;
  \<^verbatim>\<open>httpgrpc.HTTPResponseFromError\<close> (the code and body of the response, when the error
  carries one); and the method \<^verbatim>\<open>Error\<close>.
\<close>

record ('err, 'me) errors_env =
  as_MultiError :: "'err \<Rightarrow> 'me option"
  MultiError_Is :: "'me \<Rightarrow> sentinel \<Rightarrow> bool"
  MultiError_IsDeadlineExceeded :: "'me \<Rightarrow> bool"
  status_FromError :: "'err \<Rightarrow> int \<times> bool"
  errors_Is :: "'err \<Rightarrow> sentinel \<Rightarrow> bool"
  errors_As_ErrStorage :: "'err \<Rightarrow> 'err go_error option"
  errors_As_QueryError :: "'err \<Rightarrow> bool"
  HTTPResponseFromError :: "'err \<Rightarrow> (int \<times> string) option"
  err_Error :: "'err \<Rightarrow> string"

text \<open>\<^verbatim>\<open>errors.Is\<close> on an error that may be \<^verbatim>\<open>nil\<close>: \<^verbatim>\<open>nil\<close> is none of the sentinels.\<close>

definition errors_Is_nilable :: "('err, 'me) errors_env \<Rightarrow> 'err go_error \<Rightarrow> sentinel \<Rightarrow> bool" where
  "errors_Is_nilable env e t = (case e of None \<Rightarrow> False | Some x \<Rightarrow> errors_Is env x t)"

definition WriteError :: "('err, 'me) errors_env \<Rightarrow> 'err \<Rightarrow> ResponseWriter \<Rightarrow> ResponseWriter" where
  "WriteError env er w =
     (let me = as_MultiError env er in
      if (case me of Some m \<Rightarrow> MultiError_Is env m context_Canceled | None \<Rightarrow> False) then
        http_Error w ErrClientCanceled StatusClientClosedRequest
      else if (case me of Some m \<Rightarrow> MultiError_IsDeadlineExceeded env m | None \<Rightarrow> False) then
        http_Error w ErrDeadlineExceeded 504
      else
        (let (code, isRPC) = status_FromError env er in
         if errors_Is env er context_Canceled
            \<or> (case errors_As_ErrStorage env er of
                  Some promErr_Err \<Rightarrow> errors_Is_nilable env promErr_Err context_Canceled
                | None \<Rightarrow> False) then
           http_Error w ErrClientCanceled StatusClientClosedRequest
         else if errors_Is env er context_DeadlineExceeded
            \<or> (isRPC \<and> code = codes_DeadlineExceeded) then
           http_Error w ErrDeadlineExceeded 504
         else if errors_As_QueryError env er then
           http_Error w (err_Error env er) 400
         else if errors_Is env er logqlmodel_ErrLimit \<or> errors_Is env er logqlmodel_ErrParse
            \<or> errors_Is env er logqlmodel_ErrPipeline then
           http_Error w (err_Error env er) 400
         else if errors_Is env er user_ErrNoOrgID then
           http_Error w (err_Error env er) 400
         else
           (case HTTPResponseFromError env er of
              Some (grpcErr_Code, grpcErr_Body) \<Rightarrow> http_Error w grpcErr_Body grpcErr_Code
            | None \<Rightarrow> http_Error w (err_Error env er) 500)))"

subsection \<open>The mapping in the words of the specification\<close>

text \<open>
  The classes of errors, and the response for each in the order of their priority:
  client cancellation, deadline exceeded, bad request, a response carried by the error,
  anything else.
\<close>

definition client_cancelled :: "('err, 'me) errors_env \<Rightarrow> 'err \<Rightarrow> bool" where
  "client_cancelled env er =
     (errors_Is env er context_Canceled
      \<or> (case as_MultiError env er of
            Some m \<Rightarrow> MultiError_Is env m context_Canceled | None \<Rightarrow> False)
      \<or> (case errors_As_ErrStorage env er of
            Some e \<Rightarrow> errors_Is_nilable env e context_Canceled | None \<Rightarrow> False))"

definition deadline_exceeded :: "('err, 'me) errors_env \<Rightarrow> 'err \<Rightarrow> bool" where
  "deadline_exceeded env er =
     (errors_Is env er context_DeadlineExceeded
      \<or> (case as_MultiError env er of
            Some m \<Rightarrow> MultiError_IsDeadlineExceeded env m | None \<Rightarrow> False)
      \<or> (snd (status_FromError env er) \<and> fst (status_FromError env er) = codes_DeadlineExceeded))"

definition bad_request :: "('err, 'me) errors_env \<Rightarrow> 'err \<Rightarrow> bool" where
  "bad_request env er =
     (errors_As_QueryError env er
      \<or> errors_Is env er logqlmodel_ErrLimit \<or> errors_Is env er logqlmodel_ErrParse
      \<or> errors_Is env er logqlmodel_ErrPipeline
      \<or> errors_Is env er user_ErrNoOrgID)"

definition status_by_priority :: "('err, 'me) errors_env \<Rightarrow> 'err \<Rightarrow> string \<times> int" where
  "status_by_priority env er =
     (if client_cancelled env er then (ErrClientCanceled, 499)
      else if deadline_exceeded env er then (ErrDeadlineExceeded, 504)
      else if bad_request env er then (err_Error env er, 400)
      else (case HTTPResponseFromError env er of
              Some (c, body) \<Rightarrow> (body, c)
            | None \<Rightarrow> (err_Error env er, 500)))"

text \<open>
  What Go's \<^verbatim>\<open>errors\<close> package does on a \<^verbatim>\<open>MultiError\<close>, a slice type with a method \<^verbatim>\<open>Is\<close> and none
  of \<^verbatim>\<open>Unwrap\<close> and \<^verbatim>\<open>As\<close>: \<^verbatim>\<open>errors.Is\<close> is the answer of that method, and \<^verbatim>\<open>errors.As\<close> into
  another type finds nothing.
\<close>

definition MultiError_opaque :: "('err, 'me) errors_env \<Rightarrow> 'err \<Rightarrow> bool" where
  "MultiError_opaque env er =
     (case as_MultiError env er of
        None \<Rightarrow> True
      | Some m \<Rightarrow>
          errors_Is env er context_Canceled = MultiError_Is env m context_Canceled
          \<and> errors_As_ErrStorage env er = None)"

section \<open>ParseStream\<close>

text \<open>
  An \<^verbatim>\<open>io.Reader\<close>: the bytes it delivers, and the error it reports once they are used up
  (\<^verbatim>\<open>io.EOF\<close> at the end of a stream).
\<close>

record 'e Reader =
  bytes :: string
  readErr :: 'e

text \<open>
  \<^verbatim>\<open>bufio.Reader.Peek(1)\<close>: the first byte, left unconsumed, or the reader's error when there
  is none.
\<close>

definition Peek1 :: "'e Reader \<Rightarrow> 'e + char" where
  "Peek1 r = (case bytes r of [] \<Rightarrow> Inl (readErr r) | b # _ \<Rightarrow> Inr b)"

text \<open>
  The two parsers of the go-syslog library, as parameters: given the maximum message
  length and the reader, the results they hand to the listener, in order.
\<close>

record ('e, 'res) syslog_env =
  nontransparent_Parse :: "int \<Rightarrow> 'e Reader \<Rightarrow> 'res list"
  octetcounting_Parse :: "int \<Rightarrow> 'e Reader \<Rightarrow> 'res list"

text \<open>The error \<^verbatim>\<open>ParseStream\<close> returns: the one from \<^verbatim>\<open>Peek\<close>, or one made by \<^verbatim>\<open>fmt.Errorf\<close>.\<close>

datatype 'e stream_error = Peek_error 'e | fmt_Errorf string

text \<open>
  \<^verbatim>\<open>ParseStream\<close> returns its error (\<open>None\<close> is \<^verbatim>\<open>nil\<close>) and the results the callback was
  called with, in order.
\<close>

definition ParseStream ::
  "('e, 'res) syslog_env \<Rightarrow> 'e Reader \<Rightarrow> int \<Rightarrow> 'e stream_error go_error \<times> 'res list" where
  "ParseStream env r maxMessageLength =
     (case Peek1 r of
        Inl e \<Rightarrow> (Some (Peek_error e), [])
      | Inr b \<Rightarrow>
          if b = CHR ''<'' then (None, nontransparent_Parse env maxMessageLength r)
          else if CHR ''0'' \<le> b \<and> b \<le> CHR ''9'' then
            (None, octetcounting_Parse env maxMessageLength r)
          else
            (Some (fmt_Errorf
               (''invalid or unsupported framing. first byte: '' @ [CHR 0x27, b, CHR 0x27])),
             []))"

section \<open>Example inputs\<close>

text \<open>
  A store with one key, one sent and one received message and no codec registered, a
  wrapper that holds it, a fresh response writer and stand-ins for the library functions.
\<close>

definition example_obj :: "(nat, string, string) KV" where
  "example_obj =
     \<lparr>store = [''ring'' \<mapsto> \<lparr>value' = Some 5, version = 3, codecID = ''ringDesc''\<rparr>],
      sentMessages = [\<lparr>ID = 1, Time = 10, PairKV = \<lparr>Key = ''ring'', Value = ''abc'', Codec = ''ringDesc''\<rparr>\<rparr>],
      receivedMessages = [\<lparr>ID = 2, Time = 11, PairKV = \<lparr>Key = ''ring'', Value = ''abd'', Codec = ''ringDesc''\<rparr>\<rparr>],
      codecs = Map.empty,
      members = [\<lparr>Name = ''b'', Addr = ''10.0.0.2''\<rparr>, \<lparr>Name = ''a'', Addr = ''10.0.0.1''\<rparr>],
      state = Running,
      failureCase = None\<rparr>"

definition example_kvs :: "(unit, string) KVInitService" where
  "example_kvs = \<lparr>cfg = (), init = True, kv = Some 0, err = None, watcher = [0]\<rparr>"

definition example_world :: "(nat, string, string) world" where
  "example_world = \<lparr>heap = [example_obj], started = [0], stopRequests = []\<rparr>"

definition example_w :: ResponseWriter where
  "example_w = \<lparr>Header = [], Code = None, sentHeader = [], Body = []\<rparr>"

definition example_env :: "(nat, string) http_env" where
  "example_env =
     \<lparr>Atoi = (\<lambda>s. if s = ''1'' then Inr 1 else if s = ''2'' then Inr 2 else Inl ''invalid syntax''),
      json_Encode = (\<lambda>indent v. Inr ''null''),
      Sprintf_v = (\<lambda>v. ''value''),
      json_Encode_page = (\<lambda>p. Inr ''{}''),
      template_Execute = (\<lambda>p. (''<html></html>'', None)),
      time_Now = 0\<rparr>"

text \<open>
  Nine errors and what the library functions answer on them: \<^verbatim>\<open>context.Canceled\<close>, a
  \<^verbatim>\<open>MultiError\<close> of cancellations, a \<^verbatim>\<open>MultiError\<close> of exceeded deadlines, a
  \<^verbatim>\<open>promql.ErrStorage\<close> around a cancellation, a gRPC status with the code
  \<^verbatim>\<open>DeadlineExceeded\<close>, a \<^verbatim>\<open>QueryError\<close>, \<^verbatim>\<open>user.ErrNoOrgID\<close>, an httpgrpc error that carries
  the response 429, and some other error.
\<close>

datatype example_error =
  E_Canceled | E_Multi_Canceled | E_Multi_Deadline | E_Storage_Canceled | E_Grpc_Deadline
  | E_Query | E_NoOrgID | E_HttpGrpc | E_Other

definition example_errors :: "(example_error, example_error) errors_env" where
  "example_errors =
     \<lparr>as_MultiError = (\<lambda>e. if e = E_Multi_Canceled \<or> e = E_Multi_Deadline then Some e else None),
      MultiError_Is = (\<lambda>m t. (m = E_Multi_Canceled \<and> t = context_Canceled)
                            \<or> (m = E_Multi_Deadline \<and> t = context_DeadlineExceeded)),
      MultiError_IsDeadlineExceeded = (\<lambda>m. m = E_Multi_Deadline),
      status_FromError = (\<lambda>e. if e = E_Grpc_Deadline then (4, True)
                               else if e = E_HttpGrpc then (429, True) else (2, False)),
      errors_Is = (\<lambda>e t. (e = E_Canceled \<and> t = context_Canceled)
                        \<or> (e = E_Multi_Canceled \<and> t = context_Canceled)
                        \<or> (e = E_Multi_Deadline \<and> t = context_DeadlineExceeded)
                        \<or> (e = E_NoOrgID \<and> t = user_ErrNoOrgID)),
      errors_As_ErrStorage = (\<lambda>e. if e = E_Storage_Canceled then Some (Some E_Canceled) else None),
      errors_As_QueryError = (\<lambda>e. e = E_Query),
      HTTPResponseFromError = (\<lambda>e. if e = E_HttpGrpc then Some (429, ''too many requests'') else None),
      err_Error = (\<lambda>e. ''the text of the error'')\<rparr>"

text \<open>A constructor, and a \<^verbatim>\<open>StartAsync\<close> that fails.\<close>

definition example_kv_env :: "(unit, nat, string, string) kv_env" where
  "example_kv_env =
     \<lparr>NewKV = (\<lambda>c. example_obj\<lparr>state := New\<rparr>),
      StartAsync = (\<lambda>obj. (Some ''cannot start'', obj\<lparr>state := Failed\<rparr>))\<rparr>"

definition empty_world :: "(nat, string, string) world" where
  "empty_world = \<lparr>heap = [], started = [], stopRequests = []\<rparr>"

section \<open>Properties of the lifecycle wrapper\<close>

lemma GetMemberlistKV_init:
  "init (fst (snd (GetMemberlistKV env kvs w)))"
  by (simp add: GetMemberlistKV_def Let_def split: prod.splits)

lemma GetMemberlistKV_result:
  "fst (GetMemberlistKV env kvs w) =
     (kv (fst (snd (GetMemberlistKV env kvs w))), err (fst (snd (GetMemberlistKV env kvs w))))"
  by (simp add: GetMemberlistKV_def getKV_def Let_def split: prod.splits option.splits)

lemma GetMemberlistKV_after_init:
  "init kvs \<Longrightarrow> GetMemberlistKV env kvs w = ((kv kvs, err kvs), kvs, w)"
  by (simp add: GetMemberlistKV_def getKV_def split: option.splits)

lemma calls_after_init:
  "init kvs \<Longrightarrow> calls env n kvs w = (replicate n (kv kvs, err kvs), kvs, w)"
  by (induction n) (simp_all add: GetMemberlistKV_after_init)

lemma GetMemberlistKV_world:
  "snd (snd (GetMemberlistKV env kvs w)) =
     (if init kvs then w
      else w\<lparr>heap := heap w @ [snd (StartAsync env (NewKV env (cfg kvs)))],
              started := started w @ [length (heap w)]\<rparr>)"
  by (simp add: GetMemberlistKV_def initKV_def alloc_def Let_def split: prod.splits)

lemma GetMemberlistKV_first:
  "\<not> init kvs \<Longrightarrow>
     fst (GetMemberlistKV env kvs w) =
       (Some (length (heap w)), fst (StartAsync env (NewKV env (cfg kvs))))"
  by (simp add: GetMemberlistKV_def initKV_def alloc_def getKV_def Let_def split: prod.splits)

text \<open>
  C1. In every sequence of calls to \<^verbatim>\<open>GetMemberlistKV\<close>, from any state of the wrapper and
  for any behaviour of the constructor and of \<^verbatim>\<open>StartAsync\<close>: every call returns the pointer
  and the error the first call returned (so a failed start is returned to every later
  caller); all calls together construct and start one store if the wrapper was not yet
  initialised and none if it was; the calls after the first construct and start nothing.
\<close>

theorem GetMemberlistKV_once:
  "fst (calls env (Suc n) kvs w) = replicate (Suc n) (fst (GetMemberlistKV env kvs w))
   \<and> heap (snd (snd (calls env (Suc n) kvs w))) =
       (if init kvs then heap w
        else heap w @ [snd (StartAsync env (NewKV env (cfg kvs)))])
   \<and> started (snd (snd (calls env (Suc n) kvs w))) =
       (if init kvs then started w else started w @ [length (heap w)])
   \<and> snd (calls env (Suc n) kvs w) = snd (GetMemberlistKV env kvs w)"
proof -
  obtain r kvs1 w1 where g: "GetMemberlistKV env kvs w = (r, kvs1, w1)"
    by (cases "GetMemberlistKV env kvs w") auto
  have i: "init kvs1"
    using GetMemberlistKV_init [of env kvs w] g by simp
  have r: "r = (kv kvs1, err kvs1)"
    using GetMemberlistKV_result [of env kvs w] g by simp
  have c: "calls env (Suc n) kvs w = (r # replicate n r, kvs1, w1)"
    using g r calls_after_init [OF i, of env n w1] by simp
  have w: "w1 = (if init kvs then w
      else w\<lparr>heap := heap w @ [snd (StartAsync env (NewKV env (cfg kvs)))],
              started := started w @ [length (heap w)]\<rparr>)"
    using GetMemberlistKV_world [of env kvs w] g by simp
  show ?thesis
    using c g w by simp
qed

theorem GetMemberlistKV_once_witness:
  "fst (calls \<lparr>NewKV = (\<lambda>c :: unit. \<lparr>store = Map.empty, sentMessages = [], receivedMessages = [],
                    codecs = Map.empty, members = [], state = New,
                    failureCase = None\<rparr> :: (nat, nat, string) KV),
               StartAsync = (\<lambda>obj. (Some ''cannot start'', obj\<lparr>state := Failed\<rparr>))\<rparr>
          (Suc 2) (NewKVInitService ()) \<lparr>heap = [], started = [], stopRequests = []\<rparr>)
     = [(Some 0, Some ''cannot start''), (Some 0, Some ''cannot start''), (Some 0, Some ''cannot start'')]
   \<and> length (heap (snd (snd (calls \<lparr>NewKV = (\<lambda>c :: unit. \<lparr>store = Map.empty, sentMessages = [], receivedMessages = [],
                    codecs = Map.empty, members = [], state = New,
                    failureCase = None\<rparr> :: (nat, nat, string) KV),
               StartAsync = (\<lambda>obj. (Some ''cannot start'', obj\<lparr>state := Failed\<rparr>))\<rparr>
          (Suc 2) (NewKVInitService ()) \<lparr>heap = [], started = [], stopRequests = []\<rparr>)))) = 1
   \<and> started (snd (snd (calls \<lparr>NewKV = (\<lambda>c :: unit. \<lparr>store = Map.empty, sentMessages = [], receivedMessages = [],
                    codecs = Map.empty, members = [], state = New,
                    failureCase = None\<rparr> :: (nat, nat, string) KV),
               StartAsync = (\<lambda>obj. (Some ''cannot start'', obj\<lparr>state := Failed\<rparr>))\<rparr>
          (Suc 2) (NewKVInitService ()) \<lparr>heap = [], started = [], stopRequests = []\<rparr>))) = [0]"
  using GetMemberlistKV_once [of
      "\<lparr>NewKV = (\<lambda>c :: unit. \<lparr>store = Map.empty, sentMessages = [], receivedMessages = [],
                    codecs = Map.empty, members = [], state = New,
                    failureCase = None\<rparr> :: (nat, nat, string) KV),
               StartAsync = (\<lambda>obj. (Some ''cannot start'', obj\<lparr>state := Failed\<rparr>))\<rparr>"
      2 "NewKVInitService ()" "\<lparr>heap = [], started = [], stopRequests = []\<rparr>"]
  by (simp add: GetMemberlistKV_first GetMemberlistKV_world NewKVInitService_def eval_nat_numeral)

subsection \<open>Concurrent calls\<close>

lemma others_lock:
  "thread_ok h e i None u l \<Longrightarrow> u \<noteq> t \<Longrightarrow> thread_ok h e i (Some t) u l"
  by (cases l) (simp_all add: thread_ok_def)

lemma others_advance:
  "thread_ok h e i (Some t) u l \<Longrightarrow> u \<noteq> t \<Longrightarrow> i < 6 \<Longrightarrow> thread_ok h e j (Some t) u l"
  by (cases l) (simp_all add: thread_ok_def)

lemma others_unlock:
  "thread_ok h e i (Some t) u l \<Longrightarrow> u \<noteq> t \<Longrightarrow> thread_ok h e i None u l"
  by (cases l) (simp_all add: thread_ok_def)

lemma stage_init: "i \<le> 6 \<Longrightarrow> init (fst (stage env c0 w0 i)) = (i = 6)"
  by (simp add: stage_def Let_def NewKVInitService_def)

lemma at_stage_goto:
  assumes a: "at_stage env c0 w0 n i c" and t: "t < n"
    and self: "thread_ok (length (heap w0)) (fst (StartAsync env (NewKV env c0))) j m t l"
    and others: "\<And>u l0. u \<noteq> t
        \<Longrightarrow> thread_ok (length (heap w0)) (fst (StartAsync env (NewKV env c0))) i (c_mutex c) u l0
        \<Longrightarrow> thread_ok (length (heap w0)) (fst (StartAsync env (NewKV env c0))) j m u l0"
    and j: "j \<le> 6" and st: "(c_kvs c', c_world c') = stage env c0 w0 j"
    and m: "c_mutex c' = m" and free: "m = None \<longrightarrow> j = 0 \<or> j = 6"
    and own: "\<forall>u. m = Some u \<longrightarrow> u < n"
    and thr: "c_threads c' = (c_threads c)[t := l]"
  shows "at_stage env c0 w0 n j c'"
proof -
  from a have len: "length (c_threads c) = n"
    and all: "\<forall>u<n. thread_ok (length (heap w0)) (fst (StartAsync env (NewKV env c0))) i
                (c_mutex c) u (c_threads c ! u)"
    by (simp_all add: at_stage_def)
  have "\<forall>u<n. thread_ok (length (heap w0)) (fst (StartAsync env (NewKV env c0))) j m u
                (c_threads c' ! u)"
    using all len t self others thr by (auto simp: nth_list_update)
  then show ?thesis
    using j st m free own thr len by (simp add: at_stage_def)
qed

lemma step_at_stage:
  assumes a: "at_stage env c0 w0 n i c"
  shows "\<exists>j. at_stage env c0 w0 n j (step env t c)"
proof (cases "t < n")
  case False
  then have "step env t c = c"
    using a by (simp add: step_def at_stage_def)
  then show ?thesis using a by auto
next
  case True
  let ?h = "length (heap w0)" and ?e = "fst (StartAsync env (NewKV env c0))"
  from a have i6: "i \<le> 6" and st: "(c_kvs c, c_world c) = stage env c0 w0 i"
    and len: "length (c_threads c) = n"
    and free: "c_mutex c = None \<longrightarrow> i = 0 \<or> i = 6"
    and own: "\<forall>u. c_mutex c = Some u \<longrightarrow> u < n"
    and all: "\<forall>u<n. thread_ok ?h ?e i (c_mutex c) u (c_threads c ! u)"
    by (simp_all add: at_stage_def)
  from all True have tok: "thread_ok ?h ?e i (c_mutex c) t (c_threads c ! t)"
    by simp
  have ini: "init (c_kvs c) = (i = 6)"
    using stage_init [OF i6, of env c0 w0] st by (metis fst_conv)
  have tl: "t < length (c_threads c)"
    using True len by simp
  show ?thesis
  proof (cases "c_threads c ! t")
    case At_Do
    from tok At_Do have m: "c_mutex c \<noteq> Some t"
      by (simp add: thread_ok_def)
    have self: "thread_ok ?h ?e i (c_mutex c) t (if init (c_kvs c) then At_getKV else At_Lock)"
      using m ini by (simp add: thread_ok_def)
    have "at_stage env c0 w0 n i (step env t c)"
      by (rule at_stage_goto [OF a True self])
        (use At_Do tl st own free i6 in \<open>simp_all add: step_def goto_def\<close>)
    then show ?thesis ..
  next
    case At_Lock
    show ?thesis
    proof (cases "c_mutex c")
      case None
      have self: "thread_ok ?h ?e i (Some t) t At_check"
        using None free by (simp add: thread_ok_def)
      have others: "thread_ok ?h ?e i (Some t) u l0"
        if "u \<noteq> t" and "thread_ok ?h ?e i (c_mutex c) u l0" for u l0
        using that None by (simp add: others_lock)
      have "at_stage env c0 w0 n i (step env t c)"
        by (rule at_stage_goto [OF a True self others])
          (use At_Lock None tl st True i6 in \<open>simp_all add: step_def goto_def\<close>)
      then show ?thesis ..
    next
      case (Some u)
      then have "step env t c = c"
        using At_Lock tl by (simp add: step_def)
      then show ?thesis using a by auto
    qed
  next
    case At_check
    from tok At_check have m: "c_mutex c = Some t" and i: "i = 0 \<or> i = 6"
      by (simp_all add: thread_ok_def)
    have self: "thread_ok ?h ?e i (c_mutex c) t (if init (c_kvs c) then At_Unlock else At_NewKV)"
      using m i ini by (auto simp add: thread_ok_def)
    have "at_stage env c0 w0 n i (step env t c)"
      by (rule at_stage_goto [OF a True self])
        (use At_check tl st own free i6 in \<open>simp_all add: step_def goto_def\<close>)
    then show ?thesis ..
  next
    case At_NewKV
    from tok At_NewKV have m: "c_mutex c = Some t"
      and i: "i = 0"
      by (simp_all add: thread_ok_def)
    have self: "thread_ok ?h ?e 1 (Some t) t (At_WatchService ?h)"
      using m i by (simp add: thread_ok_def)
    have others: "thread_ok ?h ?e 1 (Some t) u l0"
      if "u \<noteq> t" and "thread_ok ?h ?e i (c_mutex c) u l0" for u l0
      using that m i others_advance [of ?h ?e i t u l0 1] by simp
    have "at_stage env c0 w0 n 1 (step env t c)"
      by (rule at_stage_goto [OF a True self others])
        (use At_NewKV tl st own free m i in \<open>simp_all add: step_def goto_def alloc_def stage_def Let_def NewKVInitService_def\<close>)
    then show ?thesis ..
  next
    case (At_WatchService p)
    from tok At_WatchService have m: "c_mutex c = Some t"
      and i: "i = 1"
      and p: "p = ?h"
      by (simp_all add: thread_ok_def)
    have self: "thread_ok ?h ?e 2 (Some t) t (At_StartAsync ?h)"
      using m i p by (simp add: thread_ok_def)
    have others: "thread_ok ?h ?e 2 (Some t) u l0"
      if "u \<noteq> t" and "thread_ok ?h ?e i (c_mutex c) u l0" for u l0
      using that m i p others_advance [of ?h ?e i t u l0 2] by simp
    have "at_stage env c0 w0 n 2 (step env t c)"
      by (rule at_stage_goto [OF a True self others])
        (use At_WatchService tl st own free m i p in \<open>simp_all add: step_def goto_def stage_def Let_def NewKVInitService_def\<close>)
    then show ?thesis ..
  next
    case (At_StartAsync p)
    from tok At_StartAsync have m: "c_mutex c = Some t"
      and i: "i = 2"
      and p: "p = ?h"
      by (simp_all add: thread_ok_def)
    have self: "thread_ok ?h ?e 3 (Some t) t (At_set_err ?h ?e)"
      using m i p by (simp add: thread_ok_def)
    have others: "thread_ok ?h ?e 3 (Some t) u l0"
      if "u \<noteq> t" and "thread_ok ?h ?e i (c_mutex c) u l0" for u l0
      using that m i p others_advance [of ?h ?e i t u l0 3] by simp
    have "at_stage env c0 w0 n 3 (step env t c)"
      by (rule at_stage_goto [OF a True self others])
        (use At_StartAsync tl st own free m i p in \<open>simp_all add: step_def goto_def stage_def Let_def NewKVInitService_def deref_def split_beta\<close>)
    then show ?thesis ..
  next
    case (At_set_err p e)
    from tok At_set_err have m: "c_mutex c = Some t"
      and i: "i = 3"
      and p: "p = ?h"
      and e: "e = ?e"
      by (simp_all add: thread_ok_def)
    have self: "thread_ok ?h ?e 4 (Some t) t (At_Store ?h)"
      using m i p e by (simp add: thread_ok_def)
    have others: "thread_ok ?h ?e 4 (Some t) u l0"
      if "u \<noteq> t" and "thread_ok ?h ?e i (c_mutex c) u l0" for u l0
      using that m i p e others_advance [of ?h ?e i t u l0 4] by simp
    have "at_stage env c0 w0 n 4 (step env t c)"
      by (rule at_stage_goto [OF a True self others])
        (use At_set_err tl st own free m i p e in \<open>simp_all add: step_def goto_def stage_def Let_def NewKVInitService_def\<close>)
    then show ?thesis ..
  next
    case (At_Store p)
    from tok At_Store have m: "c_mutex c = Some t"
      and i: "i = 4"
      and p: "p = ?h"
      by (simp_all add: thread_ok_def)
    have self: "thread_ok ?h ?e 5 (Some t) t (At_done)"
      using m i p by (simp add: thread_ok_def)
    have others: "thread_ok ?h ?e 5 (Some t) u l0"
      if "u \<noteq> t" and "thread_ok ?h ?e i (c_mutex c) u l0" for u l0
      using that m i p others_advance [of ?h ?e i t u l0 5] by simp
    have "at_stage env c0 w0 n 5 (step env t c)"
      by (rule at_stage_goto [OF a True self others])
        (use At_Store tl st own free m i p in \<open>simp_all add: step_def goto_def stage_def Let_def NewKVInitService_def\<close>)
    then show ?thesis ..
  next
    case At_done
    from tok At_done have m: "c_mutex c = Some t"
      and i: "i = 5"
      by (simp_all add: thread_ok_def)
    have self: "thread_ok ?h ?e 6 (Some t) t (At_Unlock)"
      using m i by (simp add: thread_ok_def)
    have others: "thread_ok ?h ?e 6 (Some t) u l0"
      if "u \<noteq> t" and "thread_ok ?h ?e i (c_mutex c) u l0" for u l0
      using that m i others_advance [of ?h ?e i t u l0 6] by simp
    have "at_stage env c0 w0 n 6 (step env t c)"
      by (rule at_stage_goto [OF a True self others])
        (use At_done tl st own free m i in \<open>simp_all add: step_def goto_def stage_def Let_def NewKVInitService_def\<close>)
    then show ?thesis ..
  next
    case At_Unlock
    from tok At_Unlock have m: "c_mutex c = Some t"
      and i: "i = 6"
      by (simp_all add: thread_ok_def)
    have self: "thread_ok ?h ?e 6 (None) t (At_getKV)"
      using m i by (simp add: thread_ok_def)
    have others: "thread_ok ?h ?e 6 (None) u l0"
      if "u \<noteq> t" and "thread_ok ?h ?e i (c_mutex c) u l0" for u l0
      using that m i others_unlock [of ?h ?e i t u l0] by simp
    have "at_stage env c0 w0 n 6 (step env t c)"
      by (rule at_stage_goto [OF a True self others])
        (use At_Unlock tl st own free m i in \<open>simp_all add: step_def goto_def stage_def Let_def NewKVInitService_def\<close>)
    then show ?thesis ..
  next
    case At_getKV
    from tok At_getKV have m: "c_mutex c \<noteq> Some t" and i: "i = 6"
      by (simp_all add: thread_ok_def)
    have k: "getKV (c_kvs c) = Some ?h"
      using st i by (simp add: stage_def getKV_def Let_def)
    have self: "thread_ok ?h ?e i (c_mutex c) t (At_err (getKV (c_kvs c)))"
      using m i k by (simp add: thread_ok_def)
    have "at_stage env c0 w0 n i (step env t c)"
      by (rule at_stage_goto [OF a True self])
        (use At_getKV tl st own free i6 in \<open>simp_all add: step_def goto_def\<close>)
    then show ?thesis ..
  next
    case (At_err r)
    from tok At_err have m: "c_mutex c \<noteq> Some t" and i: "i = 6" and r: "r = Some ?h"
      by (simp_all add: thread_ok_def)
    have k: "err (c_kvs c) = ?e"
      using st i by (simp add: stage_def Let_def)
    have self: "thread_ok ?h ?e i (c_mutex c) t (Finished r (err (c_kvs c)))"
      using m i r k by (simp add: thread_ok_def)
    have "at_stage env c0 w0 n i (step env t c)"
      by (rule at_stage_goto [OF a True self])
        (use At_err tl st own free i6 in \<open>simp_all add: step_def goto_def\<close>)
    then show ?thesis ..
  next
    case (Finished r e)
    then have "step env t c = c"
      using tl by (simp add: step_def)
    then show ?thesis using a by auto
  qed
qed

lemma concurrent_calls_at_stage:
  "at_stage env c0 w0 n 0 (concurrent_calls c0 w0 n)"
  by (simp add: at_stage_def concurrent_calls_def stage_def thread_ok_def)

lemma fold_at_stage:
  "at_stage env c0 w0 n i c \<Longrightarrow> \<exists>j. at_stage env c0 w0 n j (fold (step env) sched c)"
proof (induction sched arbitrary: i c)
  case Nil
  then show ?case by auto
next
  case (Cons t sched)
  from step_at_stage [OF Cons.prems, of t]
  obtain j where "at_stage env c0 w0 n j (step env t c)" ..
  from Cons.IH [OF this] show ?case by simp
qed

lemma run_at_stage:
  "\<exists>j. at_stage env c0 w0 n j (run env sched (concurrent_calls c0 w0 n))"
  unfolding run_def by (rule fold_at_stage [OF concurrent_calls_at_stage])

lemma stage_heap:
  "i \<le> 6 \<Longrightarrow> length (heap (snd (stage env c0 w0 i))) \<le> length (heap w0) + 1
     \<and> length (started (snd (stage env c0 w0 i))) \<le> length (started w0) + 1"
  by (simp add: stage_def Let_def)

lemma stage_6:
  "snd (stage env c0 w0 6) =
     w0\<lparr>heap := heap w0 @ [snd (StartAsync env (NewKV env c0))],
        started := started w0 @ [length (heap w0)]\<rparr>"
  by (simp add: stage_def Let_def)

lemma remaining_0: "(remaining l = 0) = (\<exists>r e. l = Finished r e)"
  by (cases l) (simp_all add: remaining_def)

lemma step_progress:
  assumes a: "at_stage env c0 w0 n i c" and t: "t < n"
    and m: "c_mutex c = None \<or> c_mutex c = Some t"
  shows "(c_mutex (step env t c) = None \<or> c_mutex (step env t c) = Some t)
    \<and> remaining (c_threads (step env t c) ! t) \<le> remaining (c_threads c ! t) - 1
    \<and> (\<forall>u. u \<noteq> t \<longrightarrow> c_threads (step env t c) ! u = c_threads c ! u)"
proof -
  from a have st: "(c_kvs c, c_world c) = stage env c0 w0 i"
    and len: "length (c_threads c) = n"
    and all: "\<forall>u<n. thread_ok (length (heap w0)) (fst (StartAsync env (NewKV env c0))) i
                (c_mutex c) u (c_threads c ! u)"
    by (simp_all add: at_stage_def)
  from all t have tok: "thread_ok (length (heap w0)) (fst (StartAsync env (NewKV env c0))) i
      (c_mutex c) t (c_threads c ! t)"
    by simp
  have tl: "t < length (c_threads c)"
    using t len by simp
  show ?thesis
  proof (cases "c_threads c ! t")
    case (At_StartAsync p)
    from tok At_StartAsync have "i = 2" and "p = length (heap w0)"
      by (simp_all add: thread_ok_def)
    then have "deref (c_world c) p = Some (NewKV env c0)"
      using st by (simp add: stage_def Let_def deref_def)
    then show ?thesis
      using At_StartAsync tl m
      by (simp add: step_def goto_def remaining_def split_beta)
  qed (use tl m tok in \<open>auto simp: step_def goto_def remaining_def thread_ok_def split_beta\<close>)
qed

lemma steps_progress:
  assumes a: "at_stage env c0 w0 n i c" and t: "t < n"
    and m: "c_mutex c = None \<or> c_mutex c = Some t"
  shows "(\<exists>j. at_stage env c0 w0 n j ((step env t ^^ k) c))
    \<and> (c_mutex ((step env t ^^ k) c) = None \<or> c_mutex ((step env t ^^ k) c) = Some t)
    \<and> remaining (c_threads ((step env t ^^ k) c) ! t) \<le> remaining (c_threads c ! t) - k
    \<and> (\<forall>u. u \<noteq> t \<longrightarrow> c_threads ((step env t ^^ k) c) ! u = c_threads c ! u)"
  using a m
proof (induction k arbitrary: i c)
  case 0
  then show ?case by auto
next
  case (Suc k)
  from step_at_stage [OF Suc.prems(1), of t]
  obtain j where j: "at_stage env c0 w0 n j (step env t c)" ..
  note p = step_progress [OF Suc.prems(1) t Suc.prems(2)]
  from p have m': "c_mutex (step env t c) = None \<or> c_mutex (step env t c) = Some t"
    by simp
  note ih = Suc.IH [OF j m']
  have r: "remaining (c_threads ((step env t ^^ k) (step env t c)) ! t)
      \<le> remaining (c_threads c ! t) - Suc k"
    using ih p by linarith
  show ?case
    using ih p r by (simp add: funpow_swap1)
qed

lemma finish_thread:
  assumes a: "at_stage env c0 w0 n i c" and t: "t < n"
    and m: "c_mutex c = None \<or> c_mutex c = Some t"
  shows "(\<exists>j. at_stage env c0 w0 n j (fold (step env) (replicate 12 t) c))
    \<and> c_mutex (fold (step env) (replicate 12 t) c) = None
    \<and> remaining (c_threads (fold (step env) (replicate 12 t) c) ! t) = 0
    \<and> (\<forall>u. u \<noteq> t \<longrightarrow> c_threads (fold (step env) (replicate 12 t) c) ! u = c_threads c ! u)"
proof -
  let ?c = "(step env t ^^ 12) c"
  note s = steps_progress [OF a t m, of 12]
  have "remaining (c_threads c ! t) \<le> 12"
    by (cases "c_threads c ! t") (simp_all add: remaining_def)
  with s have r: "remaining (c_threads ?c ! t) = 0"
    by linarith
  from s obtain j where j: "at_stage env c0 w0 n j ?c"
    by blast
  then have "thread_ok (length (heap w0)) (fst (StartAsync env (NewKV env c0))) j
      (c_mutex ?c) t (c_threads ?c ! t)"
    using t by (simp add: at_stage_def)
  with r have "c_mutex ?c \<noteq> Some t"
    by (auto simp: remaining_0 thread_ok_def)
  with s have "c_mutex ?c = None"
    by blast
  then show ?thesis
    using s r by simp
qed

lemma finish_threads:
  assumes "at_stage env c0 w0 n i c" and "c_mutex c = None" and "\<forall>t\<in>set ts. t < n"
  shows "(\<exists>j. at_stage env c0 w0 n j (fold (step env) (concat (map (replicate 12) ts)) c))
    \<and> c_mutex (fold (step env) (concat (map (replicate 12) ts)) c) = None
    \<and> (\<forall>u. u \<in> set ts \<or> remaining (c_threads c ! u) = 0 \<longrightarrow>
          remaining (c_threads (fold (step env) (concat (map (replicate 12) ts)) c) ! u) = 0)"
  using assms
proof (induction ts arbitrary: i c)
  case Nil
  then show ?case by auto
next
  case (Cons t ts)
  let ?c = "fold (step env) (replicate 12 t) c"
  from Cons.prems have t: "t < n" and ts: "\<forall>t\<in>set ts. t < n"
    by simp_all
  from Cons.prems(2) have m: "c_mutex c = None \<or> c_mutex c = Some t"
    by simp
  note f = finish_thread [OF Cons.prems(1) t m]
  from f obtain j where j: "at_stage env c0 w0 n j ?c"
    by blast
  from f have m': "c_mutex ?c = None"
    by simp
  note ih = Cons.IH [OF j m' ts]
  have keep: "remaining (c_threads ?c ! u) = 0"
    if "u \<in> set (t # ts) \<and> u \<notin> set ts \<or> remaining (c_threads c ! u) = 0" for u
    using that f by (cases "u = t") auto
  show ?case
    using ih keep by (simp del: replicate.simps) blast
qed

lemma completion_finishes:
  assumes a: "at_stage env c0 w0 n i c"
  shows "\<forall>t<n. remaining (c_threads (fold (step env) (completion n (c_mutex c)) c) ! t) = 0"
proof (cases "c_mutex c")
  case None
  have "\<forall>t\<in>set [0..<n]. t < n" by simp
  from finish_threads [OF a None this] None show ?thesis
    by (simp add: completion_def)
next
  case (Some t0)
  with a have t0: "t0 < n"
    by (simp add: at_stage_def)
  from Some have m: "c_mutex c = None \<or> c_mutex c = Some t0"
    by simp
  let ?c = "fold (step env) (replicate 12 t0) c"
  note f = finish_thread [OF a t0 m]
  from f obtain j where j: "at_stage env c0 w0 n j ?c"
    by blast
  from f have m': "c_mutex ?c = None"
    by simp
  have "\<forall>t\<in>set [0..<n]. t < n" by simp
  from finish_threads [OF j m' this] Some show ?thesis
    by (simp add: completion_def del: replicate.simps)
qed

text \<open>
  C2. For any number of goroutines that call \<^verbatim>\<open>GetMemberlistKV\<close> on a new wrapper, and in
  every interleaving of their actions: at no moment has more than one store been
  constructed or started; every goroutine that has returned was given the pointer to that
  one store and the one error \<^verbatim>\<open>StartAsync\<close> returned, and exactly one store has then been
  constructed and started; and no interleaving ends in a deadlock: from wherever it has
  led, all the calls can be completed, so that every goroutine returns.
\<close>

theorem GetMemberlistKV_concurrent:
  "length (heap (c_world (run env sched (concurrent_calls c0 w0 n)))) \<le> length (heap w0) + 1
   \<and> length (started (c_world (run env sched (concurrent_calls c0 w0 n)))) \<le> length (started w0) + 1
   \<and> (\<forall>t<n. \<forall>r e. c_threads (run env sched (concurrent_calls c0 w0 n)) ! t = Finished r e \<longrightarrow>
         r = Some (length (heap w0)) \<and> e = fst (StartAsync env (NewKV env c0))
         \<and> heap (c_world (run env sched (concurrent_calls c0 w0 n)))
             = heap w0 @ [snd (StartAsync env (NewKV env c0))]
         \<and> started (c_world (run env sched (concurrent_calls c0 w0 n)))
             = started w0 @ [length (heap w0)])
   \<and> (\<forall>t<n. \<exists>r e.
         c_threads (run env (sched @ completion n (c_mutex (run env sched (concurrent_calls c0 w0 n))))
                      (concurrent_calls c0 w0 n)) ! t = Finished r e)"
proof -
  let ?c = "run env sched (concurrent_calls c0 w0 n)"
  obtain j where j: "at_stage env c0 w0 n j ?c"
    using run_at_stage [of env c0 w0 n sched] ..
  then have j6: "j \<le> 6" and st: "(c_kvs ?c, c_world ?c) = stage env c0 w0 j"
    and all: "\<forall>t<n. thread_ok (length (heap w0)) (fst (StartAsync env (NewKV env c0))) j
                (c_mutex ?c) t (c_threads ?c ! t)"
    by (simp_all add: at_stage_def)
  from st have w: "c_world ?c = snd (stage env c0 w0 j)"
    by (metis snd_conv)
  have bound: "length (heap (c_world ?c)) \<le> length (heap w0) + 1
     \<and> length (started (c_world ?c)) \<le> length (started w0) + 1"
    using stage_heap [OF j6, of env c0 w0] w by simp
  have fin: "r = Some (length (heap w0)) \<and> e = fst (StartAsync env (NewKV env c0))
         \<and> heap (c_world ?c) = heap w0 @ [snd (StartAsync env (NewKV env c0))]
         \<and> started (c_world ?c) = started w0 @ [length (heap w0)]"
    if t: "t < n" and f: "c_threads ?c ! t = Finished r e" for t r e
  proof -
    from all t f have "j = 6 \<and> r = Some (length (heap w0)) \<and> e = fst (StartAsync env (NewKV env c0))"
      by (auto simp: thread_ok_def)
    then show ?thesis
      using w stage_6 [of env c0 w0] by simp
  qed
  have "run env (sched @ completion n (c_mutex ?c)) (concurrent_calls c0 w0 n)
      = fold (step env) (completion n (c_mutex ?c)) ?c"
    by (simp add: run_def)
  then have live: "\<forall>t<n. \<exists>r e.
      c_threads (run env (sched @ completion n (c_mutex ?c)) (concurrent_calls c0 w0 n)) ! t
        = Finished r e"
    using completion_finishes [OF j] by (simp add: remaining_0)
  show ?thesis
    using bound fin live by blast
qed

theorem GetMemberlistKV_concurrent_witness:
  "c_threads (run example_kv_env [0, 1, 2, 1, 0, 1, 1, 0, 1, 1, 1, 1, 2, 1, 1, 0, 0, 0, 2, 1, 1, 0, 0, 2, 2, 2, 2]
       (concurrent_calls () empty_world 3))
     = [Finished (Some 0) (Some ''cannot start''), Finished (Some 0) (Some ''cannot start''),
        Finished (Some 0) (Some ''cannot start'')]
   \<and> length (heap (c_world (run example_kv_env
        [0, 1, 2, 1, 0, 1, 1, 0, 1, 1, 1, 1, 2, 1, 1, 0, 0, 0, 2, 1, 1, 0, 0, 2, 2, 2, 2]
        (concurrent_calls () empty_world 3)))) = 1
   \<and> started (c_world (run example_kv_env
        [0, 1, 2, 1, 0, 1, 1, 0, 1, 1, 1, 1, 2, 1, 1, 0, 0, 0, 2, 1, 1, 0, 0, 2, 2, 2, 2]
        (concurrent_calls () empty_world 3))) = [0]"
proof -
  let ?c = "run example_kv_env [0, 1, 2, 1, 0, 1, 1, 0, 1, 1, 1, 1, 2, 1, 1, 0, 0, 0, 2, 1, 1, 0, 0, 2, 2, 2, 2]
       (concurrent_calls () empty_world 3)"
  have t: "c_threads ?c
     = [Finished (Some 0) (Some ''cannot start''), Finished (Some 0) (Some ''cannot start''),
        Finished (Some 0) (Some ''cannot start'')]"
    by (simp add: run_def step_def goto_def concurrent_calls_def empty_world_def
        example_kv_env_def NewKVInitService_def alloc_def deref_def getKV_def
        eval_nat_numeral)
  have "\<forall>t<3. \<forall>r e. c_threads ?c ! t = Finished r e \<longrightarrow>
         r = Some (length (heap empty_world))
         \<and> e = fst (StartAsync example_kv_env (NewKV example_kv_env ()))
         \<and> heap (c_world ?c)
             = heap empty_world @ [snd (StartAsync example_kv_env (NewKV example_kv_env ()))]
         \<and> started (c_world ?c) = started empty_world @ [length (heap empty_world)]"
    using GetMemberlistKV_concurrent [of example_kv_env
        "[0, 1, 2, 1, 0, 1, 1, 0, 1, 1, 1, 1, 2, 1, 1, 0, 0, 0, 2, 1, 1, 0, 0, 2, 2, 2, 2]"
        "()" empty_world 3]
    by blast
  from this [rule_format, of 0 "Some 0" "Some ''cannot start''"] t
  have "length (heap (c_world ?c)) = 1 \<and> started (c_world ?c) = [0]"
    by (simp add: empty_world_def)
  with t show ?thesis
    by simp
qed

text \<open>
  One goroutine on its own does what the sequential \<^verbatim>\<open>GetMemberlistKV\<close> above does, from any
  state of the wrapper.
\<close>

lemma single_goroutine:
  "run env (replicate 12 0) \<lparr>c_kvs = k, c_mutex = None, c_world = w, c_threads = [At_Do]\<rparr>
     = \<lparr>c_kvs = fst (snd (GetMemberlistKV env k w)), c_mutex = None,
        c_world = snd (snd (GetMemberlistKV env k w)),
        c_threads = [Finished (fst (fst (GetMemberlistKV env k w)))
                              (snd (fst (GetMemberlistKV env k w)))]\<rparr>"
  by (cases "init k")
    (simp_all add: run_def step_def goto_def GetMemberlistKV_def initKV_def alloc_def deref_def
      getKV_def eval_nat_numeral split_beta Let_def)

subsection \<open>running\<close>

lemma running_not_ready:
  "\<forall>c\<in>set tr. \<not> ready c \<Longrightarrow> \<not> running tr r"
proof (induction tr)
  case Nil
  show ?case by (auto elim: running.cases)
next
  case (Cons c cs)
  then show ?case by (auto simp: ready_def elim: running.cases)
qed

lemma running_skip:
  "\<not> ready c \<Longrightarrow> running (c # cs) r = running cs r"
  by (auto simp: ready_def intro: running.intros elim: running.cases)

lemma running_ready:
  "ready c \<Longrightarrow> running (c # cs) r = ((ctx_Done c \<and> r = None) \<or> watcher_Chan c = Some r)"
  by (auto simp: ready_def intro: running.intros elim: running.cases)

text \<open>
  C3. \<^verbatim>\<open>running\<close> returns at the first moment one of the two events has arrived, and not
  before (it returns nothing while neither has): it returns \<^verbatim>\<open>nil\<close> by the stop signal, which
  must then have arrived, or the very error the failure watcher delivers.
\<close>

theorem running_returns:
  "running tr r =
     (case List.find ready tr of
        None \<Rightarrow> False
      | Some c \<Rightarrow> (ctx_Done c \<and> r = None) \<or> watcher_Chan c = Some r)"
proof (induction tr)
  case Nil
  show ?case by (auto elim: running.cases)
next
  case (Cons c cs)
  show ?case
  proof (cases "ready c")
    case True
    then show ?thesis by (simp add: running_ready)
  next
    case False
    then show ?thesis using Cons by (simp add: running_skip)
  qed
qed

theorem running_returns_witness:
  "running [\<lparr>ctx_Done = False, watcher_Chan = None\<rparr>,
            \<lparr>ctx_Done = False, watcher_Chan = Some (Some ''store failed'')\<rparr>,
            \<lparr>ctx_Done = True, watcher_Chan = None\<rparr>] (Some ''store failed'')
   \<and> \<not> running [\<lparr>ctx_Done = False, watcher_Chan = None\<rparr>,
            \<lparr>ctx_Done = False, watcher_Chan = Some (Some ''store failed'')\<rparr>,
            \<lparr>ctx_Done = True, watcher_Chan = None\<rparr>] None
   \<and> running [\<lparr>ctx_Done = False, watcher_Chan = None\<rparr>,
            \<lparr>ctx_Done = True, watcher_Chan = (None :: string go_error option)\<rparr>] None
   \<and> \<not> running [\<lparr>ctx_Done = False, watcher_Chan = None\<rparr>,
            \<lparr>ctx_Done = True, watcher_Chan = None\<rparr>] (Some ''store failed'')
   \<and> \<not> running [\<lparr>ctx_Done = False, watcher_Chan = None\<rparr>] (None :: string go_error)"
  by (simp add: running_returns ready_def)

subsection \<open>stopping\<close>

lemma find_terminal:
  "List.find (\<lambda>s. terminal (fst s)) xs = Some (st, f) \<Longrightarrow> terminal st"
  by (induction xs) (auto split: if_splits)

lemma find_terminal_iff:
  "(List.find (\<lambda>s. terminal (fst s)) xs \<noteq> None) = (\<exists>s\<in>set xs. terminal (fst s))"
  by (induction xs) auto

text \<open>
  C4. When nothing was ever stored in the wrapper, \<^verbatim>\<open>stopping\<close> returns \<^verbatim>\<open>nil\<close> at once
  (whatever the store would do) and changes nothing. When a store was stored, a call that
  returns has asked that store to stop and leaves it in a terminal state, the wrapper's
  own fields unchanged; the call returns if and only if the store is or becomes terminal.
\<close>

theorem stopping_cases:
  "(getKV kvs = None \<longrightarrow> stopping fut e kvs w = Some (None, kvs, w))
   \<and> (\<forall>p obj. getKV kvs = Some p \<and> deref w p = Some obj \<longrightarrow>
        (\<forall>r kvs' w'. stopping fut e kvs w = Some (r, kvs', w') \<longrightarrow>
           kvs' = kvs \<and> stopRequests w' = stopRequests w @ [p]
           \<and> (\<exists>obj'. deref w' p = Some obj' \<and> terminal (state obj')))
        \<and> ((\<exists>res. stopping fut e kvs w = Some res)
             = (terminal (state obj) \<or> (\<exists>s\<in>set fut. terminal (fst s)))))"
proof -
  have none: "getKV kvs = None \<longrightarrow> stopping fut e kvs w = Some (None, kvs, w)"
    by (simp add: stopping_def)
  have ret: "kvs' = kvs \<and> stopRequests w' = stopRequests w @ [p]
           \<and> (\<exists>obj'. deref w' p = Some obj' \<and> terminal (state obj'))"
    if a: "getKV kvs = Some p \<and> deref w p = Some obj"
      and s: "stopping fut e kvs w = Some (r, kvs', w')" for p obj r kvs' w'
  proof -
    from a have lt: "p < length (heap w)"
      by (auto simp: deref_def split: if_splits)
    from a s obtain st f where
      fnd: "List.find (\<lambda>s. terminal (fst s)) ((state obj, failureCase obj) # fut) = Some (st, f)"
      and w': "w' = w\<lparr>heap := (heap w)[p := obj\<lparr>state := st, failureCase := f\<rparr>],
                      stopRequests := stopRequests w @ [p]\<rparr>"
      and k: "kvs' = kvs"
      by (auto simp: stopping_def StopAndAwaitTerminated_def split: option.splits prod.splits)
    have "terminal st" using fnd by (rule find_terminal)
    then show ?thesis
      using w' k lt by (simp add: deref_def)
  qed
  have iff: "(\<exists>res. stopping fut e kvs w = Some res)
             = (terminal (state obj) \<or> (\<exists>s\<in>set fut. terminal (fst s)))"
    if a: "getKV kvs = Some p \<and> deref w p = Some obj" for p obj
  proof -
    have "(List.find (\<lambda>s. terminal (fst s)) ((state obj, failureCase obj) # fut) \<noteq> None)
            = (\<exists>s\<in>set ((state obj, failureCase obj) # fut). terminal (fst s))"
      by (rule find_terminal_iff)
    then show ?thesis
      using a by (auto simp: stopping_def StopAndAwaitTerminated_def split: option.splits prod.splits)
  qed
  show ?thesis
    using none ret iff by blast
qed

theorem stopping_cases_witness:
  "stopping [(Stopping, None), (Terminated, None)] None
      (NewKVInitService () :: (unit, string) KVInitService)
      (\<lparr>heap = [], started = [], stopRequests = []\<rparr> :: (nat, nat, string) world)
     = Some (None, NewKVInitService (), \<lparr>heap = [], started = [], stopRequests = []\<rparr>)
   \<and> getKV (\<lparr>cfg = (), init = True, kv = Some 0, err = None, watcher = [0]\<rparr> :: (unit, string) KVInitService) = Some 0
   \<and> (\<exists>res. stopping [(Stopping, None), (Terminated, None)] None
         (\<lparr>cfg = (), init = True, kv = Some 0, err = None, watcher = [0]\<rparr> :: (unit, string) KVInitService)
         (\<lparr>heap = [\<lparr>store = Map.empty, sentMessages = [], receivedMessages = [],
                    codecs = Map.empty, members = [], state = Running,
                    failureCase = None\<rparr>], started = [0], stopRequests = []\<rparr> :: (nat, nat, string) world)
        = Some res)
   \<and> (\<nexists>res. stopping [(Stopping, None)] None
         (\<lparr>cfg = (), init = True, kv = Some 0, err = None, watcher = [0]\<rparr> :: (unit, string) KVInitService)
         (\<lparr>heap = [\<lparr>store = Map.empty, sentMessages = [], receivedMessages = [],
                    codecs = Map.empty, members = [], state = Running,
                    failureCase = None\<rparr>], started = [0], stopRequests = []\<rparr> :: (nat, nat, string) world)
        = Some res)"
  using stopping_cases [of "NewKVInitService () :: (unit, string) KVInitService"
      "[(Stopping, None), (Terminated, None)]" None
      "\<lparr>heap = [], started = [], stopRequests = []\<rparr> :: (nat, nat, string) world"]
    stopping_cases [of "\<lparr>cfg = (), init = True, kv = Some 0, err = None, watcher = [0]\<rparr> :: (unit, string) KVInitService"
      "[(Stopping, None), (Terminated, None)]" None
      "\<lparr>heap = [\<lparr>store = Map.empty, sentMessages = [], receivedMessages = [],
                    codecs = Map.empty, members = [], state = Running,
                    failureCase = None\<rparr>], started = [0], stopRequests = []\<rparr> :: (nat, nat, string) world"]
    stopping_cases [of "\<lparr>cfg = (), init = True, kv = Some 0, err = None, watcher = [0]\<rparr> :: (unit, string) KVInitService"
      "[(Stopping, None)]" None
      "\<lparr>heap = [\<lparr>store = Map.empty, sentMessages = [], receivedMessages = [],
                    codecs = Map.empty, members = [], state = Running,
                    failureCase = None\<rparr>], started = [0], stopRequests = []\<rparr> :: (nat, nat, string) world"]
  by (simp add: getKV_def NewKVInitService_def deref_def terminal_def)

section \<open>Properties of the debug page\<close>

lemma ServeHTTP_kvs:
  "fst (snd (snd (ServeHTTP env kvs wld req w))) = kvs"
  by (simp add: ServeHTTP_def Let_def
      split: option.split list.split sum.split prod.split)

lemma ServeHTTP_world:
  "snd (snd (snd (ServeHTTP env kvs wld req w))) =
     (case getKV kvs of
        None \<Rightarrow> wld
      | Some p \<Rightarrow>
          (case deref wld p of
             None \<Rightarrow> wld
           | Some obj \<Rightarrow>
               if clearsMessages req
               then wld\<lparr>heap := (heap wld)[p := obj\<lparr>sentMessages := [], receivedMessages := []\<rparr>]\<rparr>
               else wld))"
  by (simp add: ServeHTTP_def clearsMessages_def deleteSentReceivedMessages_def Let_def
      split: option.split list.split sum.split prod.split)

lemma ServeHTTP_downloadKey:
  "getKV kvs = Some p \<Longrightarrow> deref wld p = Some obj \<Longrightarrow> ParseForm_err req = None \<Longrightarrow>
   Form req downloadKeyParam = Some (k # ks) \<Longrightarrow>
   ServeHTTP env kvs wld req w = (Returned, downloadKey w obj (store obj) k, kvs, wld)"
  by (simp add: ServeHTTP_def storeCopy_def)

lemma ServeHTTP_viewMsg:
  "getKV kvs = Some p \<Longrightarrow> deref wld p = Some obj \<Longrightarrow> ParseForm_err req = None \<Longrightarrow>
   Form req downloadKeyParam = None \<Longrightarrow> Form req viewKeyParam = None \<Longrightarrow>
   Form req viewMsgParam = Some (m # ms) \<Longrightarrow> Atoi env m = Inr n \<Longrightarrow>
   List.find (\<lambda>x. ID x = n) (sentMessages obj @ receivedMessages obj) = Some msg \<Longrightarrow>
   ServeHTTP env kvs wld req w = (Returned, viewMessage env w obj msg (getFormat req), kvs, wld)"
  by (simp add: ServeHTTP_def getSentAndReceivedMessages_def)

lemma ServeHTTP_clear:
  "getKV kvs = Some p \<Longrightarrow> deref wld p = Some obj \<Longrightarrow> clearsMessages req \<Longrightarrow>
   ServeHTTP env kvs wld req w =
     (Returned, WriteHeader (Header_Set w ''Location'' ''?deleteMessages=false'') 302, kvs,
      wld\<lparr>heap := (heap wld)[p := obj\<lparr>sentMessages := [], receivedMessages := []\<rparr>]\<rparr>)"
  by (simp add: ServeHTTP_def clearsMessages_def deleteSentReceivedMessages_def
      deleteMessagesParam_def)

lemma viewMessage_no_codec:
  "GetCodec obj (Codec (PairKV msg)) = None \<Longrightarrow>
   viewMessage env w obj msg format = http_Error w ''codec not found'' 404"
  by (simp add: viewMessage_def)

lemma downloadKey_no_codec:
  "st k = Some d \<Longrightarrow> value' d = Some v \<Longrightarrow> GetCodec obj (codecID d) = None \<Longrightarrow>
   downloadKey w obj st k = http_Error w ''codec not found'' 404"
  by (simp add: downloadKey_def)

text \<open>
  C5. When the codec lookup returns absent, \<^verbatim>\<open>viewMessage\<close> and \<^verbatim>\<open>downloadKey\<close> (for a key that
  has a value, the only case in which it needs the codec) answer with the HTTP error
  \<^verbatim>\<open>codec not found\<close>, status 404; a request served by either returns, with that response,
  and leaves the wrapper and every store as they were.
\<close>

theorem codec_not_found:
  "GetCodec obj c = None \<Longrightarrow>
     (Codec (PairKV msg) = c \<longrightarrow>
        viewMessage env w obj msg format = http_Error w ''codec not found'' 404)
   \<and> (\<forall>d v. st k = Some d \<and> value' d = Some v \<and> codecID d = c \<longrightarrow>
        downloadKey w obj st k = http_Error w ''codec not found'' 404)
   \<and> (\<forall>p d v ks. getKV kvs = Some p \<and> deref wld p = Some obj \<and> ParseForm_err req = None
          \<and> Form req downloadKeyParam = Some (k # ks)
          \<and> store obj k = Some d \<and> value' d = Some v \<and> codecID d = c \<longrightarrow>
        ServeHTTP env kvs wld req w = (Returned, http_Error w ''codec not found'' 404, kvs, wld))
   \<and> (\<forall>p m ms n. getKV kvs = Some p \<and> deref wld p = Some obj \<and> ParseForm_err req = None
          \<and> Form req downloadKeyParam = None \<and> Form req viewKeyParam = None
          \<and> Form req viewMsgParam = Some (m # ms) \<and> Atoi env m = Inr n
          \<and> List.find (\<lambda>x. ID x = n) (sentMessages obj @ receivedMessages obj) = Some msg
          \<and> Codec (PairKV msg) = c \<longrightarrow>
        ServeHTTP env kvs wld req w = (Returned, http_Error w ''codec not found'' 404, kvs, wld))"
proof -
  assume c: "GetCodec obj c = None"
  have vm: "Codec (PairKV msg) = c \<longrightarrow>
        viewMessage env w obj msg format = http_Error w ''codec not found'' 404" for format
    using c by (auto intro: viewMessage_no_codec)
  have dk: "st k = Some d \<and> value' d = Some v \<and> codecID d = c \<longrightarrow>
        downloadKey w obj st k = http_Error w ''codec not found'' 404" for d v st
    using c by (auto intro: downloadKey_no_codec)
  have s1: "getKV kvs = Some p \<and> deref wld p = Some obj \<and> ParseForm_err req = None
          \<and> Form req downloadKeyParam = Some (k # ks)
          \<and> store obj k = Some d \<and> value' d = Some v \<and> codecID d = c \<longrightarrow>
        ServeHTTP env kvs wld req w = (Returned, http_Error w ''codec not found'' 404, kvs, wld)"
    for p d v ks
    using dk [of "store obj" d v] by (auto simp: ServeHTTP_downloadKey)
  have s2: "getKV kvs = Some p \<and> deref wld p = Some obj \<and> ParseForm_err req = None
          \<and> Form req downloadKeyParam = None \<and> Form req viewKeyParam = None
          \<and> Form req viewMsgParam = Some (m # ms) \<and> Atoi env m = Inr n
          \<and> List.find (\<lambda>x. ID x = n) (sentMessages obj @ receivedMessages obj) = Some msg
          \<and> Codec (PairKV msg) = c \<longrightarrow>
        ServeHTTP env kvs wld req w = (Returned, http_Error w ''codec not found'' 404, kvs, wld)"
    for p m ms n
    using vm [of "getFormat req"] by (auto simp: ServeHTTP_viewMsg)
  show ?thesis
    using vm dk s1 s2 by blast
qed

theorem codec_not_found_witness:
  "GetCodec example_obj ''ringDesc'' = None
   \<and> ServeHTTP example_env example_kvs example_world
       \<lparr>ParseForm_err = None, Form = [''downloadKey'' \<mapsto> [''ring'']], Accept = ''''\<rparr> example_w
     = (Returned,
        \<lparr>Header = [(''Content-Type'', [''text/plain; charset=utf-8'']),
                   (''X-Content-Type-Options'', [''nosniff''])],
         Code = Some 404,
         sentHeader = [(''Content-Type'', [''text/plain; charset=utf-8'']),
                       (''X-Content-Type-Options'', [''nosniff''])],
         Body = ''codec not found'' @ [CHR 0x0A]\<rparr>,
        example_kvs, example_world)
   \<and> ServeHTTP example_env example_kvs example_world
       \<lparr>ParseForm_err = None, Form = [''viewMsg'' \<mapsto> [''2'']], Accept = ''''\<rparr> example_w
     = (Returned,
        \<lparr>Header = [(''Content-Type'', [''text/plain; charset=utf-8'']),
                   (''X-Content-Type-Options'', [''nosniff''])],
         Code = Some 404,
         sentHeader = [(''Content-Type'', [''text/plain; charset=utf-8'']),
                       (''X-Content-Type-Options'', [''nosniff''])],
         Body = ''codec not found'' @ [CHR 0x0A]\<rparr>,
        example_kvs, example_world)"
proof -
  have c: "GetCodec example_obj ''ringDesc'' = None"
    by (simp add: GetCodec_def example_obj_def)
  have e: "http_Error example_w ''codec not found'' 404 =
        \<lparr>Header = [(''Content-Type'', [''text/plain; charset=utf-8'']),
                   (''X-Content-Type-Options'', [''nosniff''])],
         Code = Some 404,
         sentHeader = [(''Content-Type'', [''text/plain; charset=utf-8'']),
                       (''X-Content-Type-Options'', [''nosniff''])],
         Body = ''codec not found'' @ [CHR 0x0A]\<rparr>"
    by (simp add: http_Error_def Write_def WriteHeader_def Header_Set_def example_w_def)
  have d: "ServeHTTP example_env example_kvs example_world
       \<lparr>ParseForm_err = None, Form = [''downloadKey'' \<mapsto> [''ring'']], Accept = ''''\<rparr> example_w
     = (Returned, http_Error example_w ''codec not found'' 404, example_kvs, example_world)"
    using codec_not_found [OF c, where k = "''ring''" and kvs = example_kvs
        and wld = example_world and w = example_w and env = example_env
        and req = "\<lparr>ParseForm_err = None, Form = [''downloadKey'' \<mapsto> [''ring'']], Accept = ''''\<rparr>"]
    by (simp add: getKV_def deref_def example_kvs_def example_world_def example_obj_def
        downloadKeyParam_def)
  have m: "ServeHTTP example_env example_kvs example_world
       \<lparr>ParseForm_err = None, Form = [''viewMsg'' \<mapsto> [''2'']], Accept = ''''\<rparr> example_w
     = (Returned, http_Error example_w ''codec not found'' 404, example_kvs, example_world)"
    using codec_not_found [OF c, where env = example_env and kvs = example_kvs
        and wld = example_world and w = example_w
        and msg = "\<lparr>ID = 2, Time = 11, PairKV = \<lparr>Key = ''ring'', Value = ''abd'', Codec = ''ringDesc''\<rparr>\<rparr>"
        and req = "\<lparr>ParseForm_err = None, Form = [''viewMsg'' \<mapsto> [''2'']], Accept = ''''\<rparr>"]
    by (simp add: getKV_def deref_def example_kvs_def example_world_def example_obj_def
        example_env_def downloadKeyParam_def viewKeyParam_def viewMsgParam_def)
  show ?thesis
    using c d m e by simp
qed

lemma deref_update:
  "deref wld p = Some obj \<Longrightarrow>
   deref (wld\<lparr>heap := (heap wld)[p := obj']\<rparr>) q =
     (if q = p then Some obj' else deref wld q)"
  by (auto simp: deref_def split: if_splits)

text \<open>
  C6. Whatever the request, \<^verbatim>\<open>ServeHTTP\<close> leaves the wrapper as it was, constructs, starts
  and stops no store, and leaves every store as it was but for its message log; and unless
  the request is the one that reaches \<^verbatim>\<open>deleteSentReceivedMessages\<close>, it leaves the whole
  heap, message logs included, as it was.
\<close>

theorem ServeHTTP_read_only:
  "fst (snd (snd (ServeHTTP env kvs wld req w))) = kvs
   \<and> started (snd (snd (snd (ServeHTTP env kvs wld req w)))) = started wld
   \<and> stopRequests (snd (snd (snd (ServeHTTP env kvs wld req w)))) = stopRequests wld
   \<and> length (heap (snd (snd (snd (ServeHTTP env kvs wld req w))))) = length (heap wld)
   \<and> (\<forall>q obj. deref wld q = Some obj \<longrightarrow>
        (\<exists>obj'. deref (snd (snd (snd (ServeHTTP env kvs wld req w)))) q = Some obj'
           \<and> obj'\<lparr>sentMessages := sentMessages obj, receivedMessages := receivedMessages obj\<rparr> = obj))
   \<and> (\<not> clearsMessages req \<longrightarrow> snd (snd (snd (ServeHTTP env kvs wld req w))) = wld)"
proof -
  let ?wld' = "snd (snd (snd (ServeHTTP env kvs wld req w)))"
  have cases: "?wld' = wld
    \<or> (clearsMessages req \<and> (\<exists>p obj. deref wld p = Some obj
          \<and> ?wld' = wld\<lparr>heap := (heap wld)[p := obj\<lparr>sentMessages := [], receivedMessages := []\<rparr>]\<rparr>))"
    by (auto simp: ServeHTTP_world split: option.split)
  have frame: "\<exists>obj'. deref ?wld' q = Some obj'
           \<and> obj'\<lparr>sentMessages := sentMessages obj, receivedMessages := receivedMessages obj\<rparr> = obj"
    if q: "deref wld q = Some obj" for q obj
    using cases
  proof
    assume "?wld' = wld"
    then show ?thesis using q by simp
  next
    assume "clearsMessages req \<and> (\<exists>p obj. deref wld p = Some obj
          \<and> ?wld' = wld\<lparr>heap := (heap wld)[p := obj\<lparr>sentMessages := [], receivedMessages := []\<rparr>]\<rparr>)"
    then obtain p o1 where p: "deref wld p = Some o1"
      and w': "?wld' = wld\<lparr>heap := (heap wld)[p := o1\<lparr>sentMessages := [], receivedMessages := []\<rparr>]\<rparr>"
      by blast
    show ?thesis
    proof (cases "q = p")
      case True
      then have "o1 = obj" using p q by simp
      then show ?thesis using w' True p by (simp add: deref_update)
    next
      case False
      then show ?thesis using w' p q by (simp add: deref_update)
    qed
  qed
  have len: "length (heap ?wld') = length (heap wld)"
    using cases by auto
  have logs: "started ?wld' = started wld \<and> stopRequests ?wld' = stopRequests wld"
    using cases by auto
  have unchanged: "\<not> clearsMessages req \<longrightarrow> ?wld' = wld"
    using cases by auto
  show ?thesis
    using ServeHTTP_kvs [of env kvs wld req w] frame len logs unchanged by blast
qed

theorem ServeHTTP_read_only_witness:
  "\<not> clearsMessages \<lparr>ParseForm_err = None, Form = [''viewKey'' \<mapsto> [''ring''], ''format'' \<mapsto> [''json'']],
                      Accept = ''''\<rparr>
   \<and> snd (snd (snd (ServeHTTP example_env example_kvs example_world
        \<lparr>ParseForm_err = None, Form = [''viewKey'' \<mapsto> [''ring''], ''format'' \<mapsto> [''json'']],
          Accept = ''''\<rparr> example_w))) = example_world
   \<and> deref example_world 0 = Some example_obj
   \<and> clearsMessages \<lparr>ParseForm_err = None, Form = [''deleteMessages'' \<mapsto> [''true'']], Accept = ''''\<rparr>
   \<and> store (heap (snd (snd (snd (ServeHTTP example_env example_kvs example_world
        \<lparr>ParseForm_err = None, Form = [''deleteMessages'' \<mapsto> [''true'']], Accept = ''''\<rparr>
        example_w)))) ! 0) = store example_obj"
  using ServeHTTP_read_only [of example_env example_kvs example_world
      "\<lparr>ParseForm_err = None, Form = [''viewKey'' \<mapsto> [''ring''], ''format'' \<mapsto> [''json'']],
         Accept = ''''\<rparr>" example_w]
  by (simp add: clearsMessages_def downloadKeyParam_def viewKeyParam_def viewMsgParam_def
      deleteMessagesParam_def deref_def example_world_def ServeHTTP_world getKV_def
      example_kvs_def)

text \<open>
  C7, amended. A request to an initialised store clears the message log, and is answered
  by the redirect (status 302, \<^verbatim>\<open>Location: ?deleteMessages=false\<close>), exactly when its form was parsed,
  it carries none of \<^verbatim>\<open>downloadKey\<close>, \<^verbatim>\<open>viewKey\<close> and \<^verbatim>\<open>viewMsg\<close>, and the first value of its
  \<^verbatim>\<open>deleteMessages\<close> parameter is \<^verbatim>\<open>true\<close>; then both the sent and the received messages of
  the wrapper's store are deleted and nothing else changes. Every other request, so one
  whose first \<^verbatim>\<open>deleteMessages\<close> value is not \<^verbatim>\<open>true\<close>, leaves the log as it was.
\<close>

theorem deleteMessages_clears:
  "getKV kvs = Some p \<Longrightarrow> deref wld p = Some obj \<Longrightarrow>
     (clearsMessages req \<longrightarrow>
        ServeHTTP env kvs wld req w =
          (Returned, WriteHeader (Header_Set w ''Location'' ''?deleteMessages=false'') 302, kvs,
           wld\<lparr>heap := (heap wld)[p := obj\<lparr>sentMessages := [], receivedMessages := []\<rparr>]\<rparr>))
   \<and> (\<not> clearsMessages req \<longrightarrow> snd (snd (snd (ServeHTTP env kvs wld req w))) = wld)
   \<and> (\<forall>v vs. Form req deleteMessagesParam = Some (v # vs) \<and> v \<noteq> ''true'' \<longrightarrow>
        snd (snd (snd (ServeHTTP env kvs wld req w))) = wld)"
proof -
  assume k: "getKV kvs = Some p" and d: "deref wld p = Some obj"
  have a: "clearsMessages req \<longrightarrow>
        ServeHTTP env kvs wld req w =
          (Returned, WriteHeader (Header_Set w ''Location'' ''?deleteMessages=false'') 302, kvs,
           wld\<lparr>heap := (heap wld)[p := obj\<lparr>sentMessages := [], receivedMessages := []\<rparr>]\<rparr>)"
    using k d by (simp add: ServeHTTP_clear)
  have b: "\<not> clearsMessages req \<longrightarrow> snd (snd (snd (ServeHTTP env kvs wld req w))) = wld"
    using k d by (simp add: ServeHTTP_world)
  have c: "Form req deleteMessagesParam = Some (v # vs) \<and> v \<noteq> ''true'' \<longrightarrow> \<not> clearsMessages req"
    for v vs
    by (auto simp: clearsMessages_def)
  show ?thesis
    using a b c by blast
qed

theorem deleteMessages_clears_witness:
  "getKV example_kvs = Some 0 \<and> deref example_world 0 = Some example_obj
   \<and> clearsMessages \<lparr>ParseForm_err = None, Form = [''deleteMessages'' \<mapsto> [''true'']], Accept = ''''\<rparr>
   \<and> ServeHTTP example_env example_kvs example_world
        \<lparr>ParseForm_err = None, Form = [''deleteMessages'' \<mapsto> [''true'']], Accept = ''''\<rparr> example_w
      = (Returned,
         \<lparr>Header = [(''Location'', [''?deleteMessages=false''])], Code = Some 302,
           sentHeader = [(''Location'', [''?deleteMessages=false''])], Body = []\<rparr>,
         example_kvs,
         \<lparr>heap = [example_obj\<lparr>sentMessages := [], receivedMessages := []\<rparr>], started = [0],
           stopRequests = []\<rparr>)
   \<and> snd (snd (snd (ServeHTTP example_env example_kvs example_world
        \<lparr>ParseForm_err = None, Form = [''deleteMessages'' \<mapsto> [''false'']], Accept = ''''\<rparr>
        example_w))) = example_world"
proof -
  have k: "getKV example_kvs = Some 0"
    by (simp add: getKV_def example_kvs_def)
  have d: "deref example_world 0 = Some example_obj"
    by (simp add: deref_def example_world_def)
  have c: "clearsMessages \<lparr>ParseForm_err = None, Form = [''deleteMessages'' \<mapsto> [''true'']], Accept = ''''\<rparr>"
    by (simp add: clearsMessages_def downloadKeyParam_def viewKeyParam_def viewMsgParam_def
      deleteMessagesParam_def)
  have n: "\<not> clearsMessages \<lparr>ParseForm_err = None, Form = [''deleteMessages'' \<mapsto> [''false'']], Accept = ''''\<rparr>"
    by (simp add: clearsMessages_def downloadKeyParam_def viewKeyParam_def viewMsgParam_def
      deleteMessagesParam_def)
  have r: "WriteHeader (Header_Set example_w ''Location'' ''?deleteMessages=false'') 302 =
         \<lparr>Header = [(''Location'', [''?deleteMessages=false''])], Code = Some 302,
           sentHeader = [(''Location'', [''?deleteMessages=false''])], Body = []\<rparr>"
    by (simp add: WriteHeader_def Header_Set_def example_w_def)
  show ?thesis
    using k d c n r
      deleteMessages_clears [OF k d, where env = example_env and w = example_w
        and req = "\<lparr>ParseForm_err = None, Form = [''deleteMessages'' \<mapsto> [''true'']], Accept = ''''\<rparr>"]
      deleteMessages_clears [OF k d, where env = example_env and w = example_w
        and req = "\<lparr>ParseForm_err = None, Form = [''deleteMessages'' \<mapsto> [''false'']], Accept = ''''\<rparr>"]
    by (simp add: example_world_def)
qed

text \<open>
  C7 as it is worded, for every request that carries \<^verbatim>\<open>deleteMessages\<close> with the value \<^verbatim>\<open>true\<close>,
  fails on three requests to an initialised store. The first carries \<^verbatim>\<open>deleteMessages=true\<close> and its form is parsed, and yet it is served as a \<^verbatim>\<open>viewKey\<close>
  request: the answer is status 404, not a redirect, and the message log is not cleared.
  The second carries \<^verbatim>\<open>deleteMessages\<close> with the values \<^verbatim>\<open>false\<close> and \<^verbatim>\<open>true\<close>, and the third
  carries \<^verbatim>\<open>deleteMessages=true\<close> in a form whose parsing reported an error: both are
  answered with the page, and the log is not cleared.
\<close>

theorem deleteMessages_counterexample:
  "ParseForm_err \<lparr>ParseForm_err = None,
                  Form = [''viewKey'' \<mapsto> [''x''], ''deleteMessages'' \<mapsto> [''true'']],
                  Accept = ''''\<rparr> = None
   \<and> Form \<lparr>ParseForm_err = None,
           Form = [''viewKey'' \<mapsto> [''x''], ''deleteMessages'' \<mapsto> [''true'']],
           Accept = ''''\<rparr> deleteMessagesParam = Some [''true'']
   \<and> ServeHTTP example_env example_kvs example_world
        \<lparr>ParseForm_err = None,
          Form = [''viewKey'' \<mapsto> [''x''], ''deleteMessages'' \<mapsto> [''true'']],
          Accept = ''''\<rparr> example_w
      = (Returned,
         \<lparr>Header = [(''Content-Type'', [''text/plain; charset=utf-8'']),
                    (''X-Content-Type-Options'', [''nosniff''])],
           Code = Some 404,
           sentHeader = [(''Content-Type'', [''text/plain; charset=utf-8'']),
                         (''X-Content-Type-Options'', [''nosniff''])],
           Body = ''value not found'' @ [CHR 0x0A]\<rparr>,
         example_kvs, example_world)
   \<and> sentMessages (heap example_world ! 0) \<noteq> []
   \<and> receivedMessages (heap example_world ! 0) \<noteq> []
   \<and> Form \<lparr>ParseForm_err = None, Form = [''deleteMessages'' \<mapsto> [''false'', ''true'']],
           Accept = ''''\<rparr> deleteMessagesParam = Some [''false'', ''true'']
   \<and> snd (ServeHTTP example_env example_kvs example_world
        \<lparr>ParseForm_err = None, Form = [''deleteMessages'' \<mapsto> [''false'', ''true'']],
          Accept = ''''\<rparr> example_w)
      = (\<lparr>Header = [(''Content-Type'', [''text/html''])], Code = Some 200,
           sentHeader = [(''Content-Type'', [''text/html''])], Body = ''<html></html>''\<rparr>,
         example_kvs, example_world)
   \<and> Form \<lparr>ParseForm_err = Some ''invalid URL escape'', Form = [''deleteMessages'' \<mapsto> [''true'']],
           Accept = ''''\<rparr> deleteMessagesParam = Some [''true'']
   \<and> snd (ServeHTTP example_env example_kvs example_world
        \<lparr>ParseForm_err = Some ''invalid URL escape'', Form = [''deleteMessages'' \<mapsto> [''true'']],
          Accept = ''''\<rparr> example_w)
      = (\<lparr>Header = [(''Content-Type'', [''text/html''])], Code = Some 200,
           sentHeader = [(''Content-Type'', [''text/html''])], Body = ''<html></html>''\<rparr>,
         example_kvs, example_world)"
  by (simp add: ServeHTTP_def getKV_def deref_def example_kvs_def example_world_def
      example_obj_def example_w_def downloadKeyParam_def viewKeyParam_def viewMsgParam_def
      deleteMessagesParam_def storeCopy_def viewKey_def http_Error_def servePage_def
      getSentAndReceivedMessages_def example_env_def Write_def WriteHeader_def Header_Set_def)

text \<open>
  C8. \<^verbatim>\<open>ServeHTTP\<close> never runs the initialisation: whatever the request, the wrapper (its
  \<^verbatim>\<open>Once\<close>, its stored pointer, its error, its watcher) is as it was and no store was
  constructed or started. When nothing is stored in the wrapper, the handler sets the
  content type \<^verbatim>\<open>text/plain\<close>, writes the notice and returns, and the heap is as it was.
\<close>

theorem ServeHTTP_uninitialized:
  "fst (snd (snd (ServeHTTP env kvs wld req w))) = kvs
   \<and> length (heap (snd (snd (snd (ServeHTTP env kvs wld req w))))) = length (heap wld)
   \<and> started (snd (snd (snd (ServeHTTP env kvs wld req w)))) = started wld
   \<and> (getKV kvs = None \<longrightarrow>
        ServeHTTP env kvs wld req w =
          (Returned,
           Write (Header_Set w ''Content-Type'' ''text/plain'')
             ''This instance doesn't use memberlist.'',
           kvs, wld))"
proof -
  have "length (heap (snd (snd (snd (ServeHTTP env kvs wld req w))))) = length (heap wld)
    \<and> started (snd (snd (snd (ServeHTTP env kvs wld req w)))) = started wld"
    by (simp add: ServeHTTP_world split: option.split)
  moreover have "getKV kvs = None \<longrightarrow>
        ServeHTTP env kvs wld req w =
          (Returned,
           Write (Header_Set w ''Content-Type'' ''text/plain'')
             ''This instance doesn't use memberlist.'',
           kvs, wld)"
    by (simp add: ServeHTTP_def)
  ultimately show ?thesis
    using ServeHTTP_kvs [of env kvs wld req w] by simp
qed

theorem ServeHTTP_uninitialized_witness:
  "getKV (NewKVInitService () :: (unit, string) KVInitService) = None
   \<and> ServeHTTP example_env (NewKVInitService ())
        (\<lparr>heap = [], started = [], stopRequests = []\<rparr> :: (nat, string, string) world)
        \<lparr>ParseForm_err = None, Form = [''deleteMessages'' \<mapsto> [''true'']], Accept = ''''\<rparr> example_w
      = (Returned,
         \<lparr>Header = [(''Content-Type'', [''text/plain''])], Code = Some 200,
           sentHeader = [(''Content-Type'', [''text/plain''])],
           Body = ''This instance doesn't use memberlist.''\<rparr>,
         NewKVInitService (), \<lparr>heap = [], started = [], stopRequests = []\<rparr>)"
  using ServeHTTP_uninitialized [of example_env "NewKVInitService () :: (unit, string) KVInitService"
      "\<lparr>heap = [], started = [], stopRequests = []\<rparr> :: (nat, string, string) world"
      "\<lparr>ParseForm_err = None, Form = [''deleteMessages'' \<mapsto> [''true'']], Accept = ''''\<rparr>" example_w]
  by (simp add: getKV_def NewKVInitService_def Write_def WriteHeader_def Header_Set_def
      example_w_def)

section \<open>Properties of WriteError\<close>

text \<open>
  C9. \<^verbatim>\<open>WriteError\<close> answers every error with exactly one call of \<^verbatim>\<open>http.Error\<close>, whose
  message and status are those of the first class the error belongs to: client
  cancellation (499, the client-cancelled message), deadline exceeded (504), bad request
  (400, the text of the error), a response carried by the error (its code and body),
  and 500 with the text of the error for any other. The code tests a \<^verbatim>\<open>MultiError\<close> of
  exceeded deadlines before it tests a cancellation that is not a \<^verbatim>\<open>MultiError\<close>; the two
  orders agree because \<^verbatim>\<open>errors.Is\<close> and \<^verbatim>\<open>errors.As\<close> see no more in a \<^verbatim>\<open>MultiError\<close> than its
  own method \<^verbatim>\<open>Is\<close> does, which is the hypothesis.
\<close>

theorem WriteError_status:
  "MultiError_opaque env er \<Longrightarrow>
   WriteError env er w =
     http_Error w (fst (status_by_priority env er)) (snd (status_by_priority env er))"
proof -
  assume h: "MultiError_opaque env er"
  obtain code isRPC where st: "status_FromError env er = (code, isRPC)"
    by (cases "status_FromError env er") auto
  show ?thesis
  proof (cases "as_MultiError env er")
    case None
    then show ?thesis
      using st
      by (simp add: WriteError_def status_by_priority_def client_cancelled_def
          deadline_exceeded_def bad_request_def StatusClientClosedRequest_def
          split: option.split)
  next
    case (Some m)
    with h have i: "errors_Is env er context_Canceled = MultiError_Is env m context_Canceled"
      and a: "errors_As_ErrStorage env er = None"
      by (simp_all add: MultiError_opaque_def)
    show ?thesis
    proof (cases "MultiError_Is env m context_Canceled")
      case True
      then show ?thesis
        using Some i
        by (simp add: WriteError_def status_by_priority_def client_cancelled_def
            StatusClientClosedRequest_def)
    next
      case False
      then show ?thesis
        using Some i a st
        by (simp add: WriteError_def status_by_priority_def client_cancelled_def
            deadline_exceeded_def bad_request_def split: option.split)
    qed
  qed
qed

theorem WriteError_status_witness:
  "MultiError_opaque example_errors E_Multi_Deadline
   \<and> WriteError example_errors E_Canceled example_w = http_Error example_w ErrClientCanceled 499
   \<and> WriteError example_errors E_Multi_Canceled example_w = http_Error example_w ErrClientCanceled 499
   \<and> WriteError example_errors E_Storage_Canceled example_w = http_Error example_w ErrClientCanceled 499
   \<and> WriteError example_errors E_Multi_Deadline example_w = http_Error example_w ErrDeadlineExceeded 504
   \<and> WriteError example_errors E_Grpc_Deadline example_w = http_Error example_w ErrDeadlineExceeded 504
   \<and> WriteError example_errors E_Query example_w = http_Error example_w ''the text of the error'' 400
   \<and> WriteError example_errors E_NoOrgID example_w = http_Error example_w ''the text of the error'' 400
   \<and> WriteError example_errors E_HttpGrpc example_w = http_Error example_w ''too many requests'' 429
   \<and> WriteError example_errors E_Other example_w = http_Error example_w ''the text of the error'' 500"
  using WriteError_status [of example_errors E_Canceled example_w]
    WriteError_status [of example_errors E_Multi_Canceled example_w]
    WriteError_status [of example_errors E_Storage_Canceled example_w]
    WriteError_status [of example_errors E_Multi_Deadline example_w]
    WriteError_status [of example_errors E_Grpc_Deadline example_w]
    WriteError_status [of example_errors E_Query example_w]
    WriteError_status [of example_errors E_NoOrgID example_w]
    WriteError_status [of example_errors E_HttpGrpc example_w]
    WriteError_status [of example_errors E_Other example_w]
  by (simp add: MultiError_opaque_def status_by_priority_def client_cancelled_def
      deadline_exceeded_def bad_request_def errors_Is_nilable_def codes_DeadlineExceeded_def
      example_errors_def)

section \<open>Properties of ParseStream\<close>

text \<open>
  C10. \<^verbatim>\<open>ParseStream\<close> decides by the result of peeking at the first byte alone, and every
  result is covered: an error from the reader (an empty or unreadable input) is returned
  as it is, and the callback is not called; \<^verbatim>\<open><\<close> gives the stream to the non-transparent
  parser and a digit gives it to the octet-counting parser, both returning \<^verbatim>\<open>nil\<close>; any other
  byte returns the error \<^verbatim>\<open>invalid or unsupported framing\<close> and the callback is not called.
\<close>

theorem ParseStream_framing:
  "(\<forall>e. Peek1 r = Inl e \<longrightarrow> ParseStream env r n = (Some (Peek_error e), []))
   \<and> (bytes r = [] \<longrightarrow> Peek1 r = Inl (readErr r))
   \<and> (\<forall>b bs. bytes r = b # bs \<longrightarrow> Peek1 r = Inr b)
   \<and> (Peek1 r = Inr (CHR ''<'') \<longrightarrow>
        ParseStream env r n = (None, nontransparent_Parse env n r))
   \<and> (\<forall>b. Peek1 r = Inr b \<and> CHR ''0'' \<le> b \<and> b \<le> CHR ''9'' \<longrightarrow>
        ParseStream env r n = (None, octetcounting_Parse env n r))
   \<and> (\<forall>b. Peek1 r = Inr b \<and> b \<noteq> CHR ''<'' \<and> \<not> (CHR ''0'' \<le> b \<and> b \<le> CHR ''9'') \<longrightarrow>
        ParseStream env r n =
          (Some (fmt_Errorf (''invalid or unsupported framing. first byte: '' @ [CHR 0x27, b, CHR 0x27])),
           []))"
proof -
  have lt: "\<not> (CHR ''0'' \<le> CHR ''<'' \<and> CHR ''<'' \<le> CHR ''9'')"
    by (simp add: less_eq_char_def)
  show ?thesis
    using lt by (auto simp: ParseStream_def Peek1_def split: list.splits)
qed

theorem ParseStream_framing_witness:
  "ParseStream \<lparr>nontransparent_Parse = (\<lambda>n r. [''nontransparent'']),
                octetcounting_Parse = (\<lambda>n r. [''octetcounting''])\<rparr>
      \<lparr>bytes = ''<34>1 2003-10-11T22:14:15.003Z host app - - - msg'', readErr = ''EOF''\<rparr> 8192
     = (None, [''nontransparent''])
   \<and> ParseStream \<lparr>nontransparent_Parse = (\<lambda>n r. [''nontransparent'']),
                octetcounting_Parse = (\<lambda>n r. [''octetcounting''])\<rparr>
      \<lparr>bytes = ''52 <34>1 2003-10-11T22:14:15.003Z host app - - - msg'', readErr = ''EOF''\<rparr> 8192
     = (None, [''octetcounting''])
   \<and> ParseStream \<lparr>nontransparent_Parse = (\<lambda>n r. [''nontransparent'']),
                octetcounting_Parse = (\<lambda>n r. [''octetcounting''])\<rparr>
      \<lparr>bytes = ''hello'', readErr = ''EOF''\<rparr> 8192
     = (Some (fmt_Errorf (''invalid or unsupported framing. first byte: '' @ [CHR 0x27] @ ''h'' @ [CHR 0x27])), [])
   \<and> ParseStream \<lparr>nontransparent_Parse = (\<lambda>n r. [''nontransparent'']),
                octetcounting_Parse = (\<lambda>n r. [''octetcounting''])\<rparr>
      \<lparr>bytes = '''', readErr = ''EOF''\<rparr> 8192
     = (Some (Peek_error ''EOF''), [])"
  using ParseStream_framing [of "\<lparr>bytes = ''<34>1 2003-10-11T22:14:15.003Z host app - - - msg'', readErr = ''EOF''\<rparr>"
      "\<lparr>nontransparent_Parse = (\<lambda>n r. [''nontransparent'']),
                octetcounting_Parse = (\<lambda>n r. [''octetcounting''])\<rparr>" 8192]
    ParseStream_framing [of "\<lparr>bytes = ''52 <34>1 2003-10-11T22:14:15.003Z host app - - - msg'', readErr = ''EOF''\<rparr>"
      "\<lparr>nontransparent_Parse = (\<lambda>n r. [''nontransparent'']),
                octetcounting_Parse = (\<lambda>n r. [''octetcounting''])\<rparr>" 8192]
    ParseStream_framing [of "\<lparr>bytes = ''hello'', readErr = ''EOF''\<rparr>"
      "\<lparr>nontransparent_Parse = (\<lambda>n r. [''nontransparent'']),
                octetcounting_Parse = (\<lambda>n r. [''octetcounting''])\<rparr>" 8192]
    ParseStream_framing [of "\<lparr>bytes = '''', readErr = ''EOF''\<rparr>"
      "\<lparr>nontransparent_Parse = (\<lambda>n r. [''nontransparent'']),
                octetcounting_Parse = (\<lambda>n r. [''octetcounting''])\<rparr>" 8192]
  by (simp add: less_eq_char_def)

end
